theory Spec2Isabelle
  imports Complex_Main "HOL-Library.Char_ord" "HOL-Library.List_Lexorder" "HOL-Library.Multiset"
    "HOL-Library.Log_Nat"
begin

section \<open>JavaScript values used by lp-model\<close>

text \<open>
  Strings are lists of 8-bit characters, compared lexicographically by character code as
  JavaScript compares strings by code unit.
\<close>

definition toUpperChar :: "char \<Rightarrow> char" where
  "toUpperChar c =
     (case map_of (zip ''abcdefghijklmnopqrstuvwxyz'' ''ABCDEFGHIJKLMNOPQRSTUVWXYZ'') c of
        Some u \<Rightarrow> u
      | None \<Rightarrow> c)"

definition toLowerChar :: "char \<Rightarrow> char" where
  "toLowerChar c =
     (case map_of (zip ''ABCDEFGHIJKLMNOPQRSTUVWXYZ'' ''abcdefghijklmnopqrstuvwxyz'') c of
        Some l \<Rightarrow> l
      | None \<Rightarrow> c)"

definition toUpperCase :: "string \<Rightarrow> string" where
  "toUpperCase s = map toUpperChar s"

definition toLowerCase :: "string \<Rightarrow> string" where
  "toLowerCase s = map toLowerChar s"

definition digit_of :: "char \<Rightarrow> nat option" where
  "digit_of c = map_of (zip ''0123456789'' [0 ..< 10]) c"

definition is_digit :: "char \<Rightarrow> bool" where
  "is_digit c = (digit_of c \<noteq> None)"

definition nat_of_digits :: "string \<Rightarrow> nat" where
  "nat_of_digits s = foldl (\<lambda>n c. 10 * n + (case digit_of c of Some d \<Rightarrow> d | None \<Rightarrow> 0)) 0 s"

text \<open>The decimal numeral of a counter or an index, as a template literal renders it.\<close>

fun show_nat :: "nat \<Rightarrow> string" where
  "show_nat n =
     (if n < 10 then [''0123456789'' ! n]
      else show_nat (n div 10) @ [''0123456789'' ! (n mod 10)])"

declare show_nat.simps [simp del]

subsection \<open>Numbers\<close>

text \<open>
  A JavaScript number is an IEEE 754 double: a finite value, one of the two zeros, one of
  the two infinities, or NaN. A finite value is held as the rational it denotes, \<open>Fin 0\<close>
  being the positive zero. The type has room for rationals that no double denotes;
  applied to doubles, every operation below returns the double that the operation of the
  language returns.
\<close>

datatype number = Fin rat | NegZero | PosInf | NegInf | NaN

definition pow2 :: "int \<Rightarrow> rat" where
  "pow2 k = (if 0 \<le> k then 2 ^ nat k else 1 / 2 ^ nat (- k))"

text \<open>For \<open>0 < r\<close>, the exponent \<open>e\<close> with \<open>2^e \<le> r < 2^(e+1)\<close>.\<close>

definition ilog2 :: "rat \<Rightarrow> int" where
  "ilog2 r = (if 1 \<le> r then bitlen \<lfloor>r\<rfloor> - 1 else - bitlen (\<lceil>1 / r\<rceil> - 1))"

text \<open>Rounding to the nearest integer, a tie going to the even one.\<close>

definition round_even :: "rat \<Rightarrow> int" where
  "round_even x =
     (if x - of_int \<lfloor>x\<rfloor> < 1 / 2 then \<lfloor>x\<rfloor>
      else if 1 / 2 < x - of_int \<lfloor>x\<rfloor> then \<lfloor>x\<rfloor> + 1
      else if even \<lfloor>x\<rfloor> then \<lfloor>x\<rfloor> else \<lfloor>x\<rfloor> + 1)"

text \<open>
  The double nearest to a positive rational \<open>a\<close> of binary exponent \<open>e\<close> (the exponent of
  the subnormal numbers when that of \<open>a\<close> is below it): the doubles of this exponent are the
  multiples of \<open>2^(e-52)\<close>, a tie goes to the even multiple, and a result of \<open>2^1024\<close> or
  more is an overflow.
\<close>

definition round_at :: "int \<Rightarrow> rat \<Rightarrow> number" where
  "round_at e a =
     (if round_even (a / pow2 (e - 52)) = 0 then Fin 0
      else if 1023 < e \<or> (e = 1023 \<and> round_even (a / pow2 (e - 52)) = 2 ^ 53) then PosInf
      else Fin (of_int (round_even (a / pow2 (e - 52))) * pow2 (e - 52)))"

fun js_neg :: "number \<Rightarrow> number" where
  "js_neg (Fin r) = (if r = 0 then NegZero else Fin (- r))"
| "js_neg NegZero = Fin 0"
| "js_neg PosInf = NegInf"
| "js_neg NegInf = PosInf"
| "js_neg NaN = NaN"

definition round_double :: "rat \<Rightarrow> number" where
  "round_double r =
     (if r = 0 then Fin 0
      else if 0 < r then round_at (max (ilog2 r) (- 1022)) r
      else js_neg (round_at (max (ilog2 (- r)) (- 1022)) (- r)))"

text \<open>\<open>x + y\<close>: the exact sum, rounded; a sum that is exactly zero is the positive zero.\<close>

fun js_add :: "number \<Rightarrow> number \<Rightarrow> number" where
  "js_add NaN y = NaN"
| "js_add x NaN = NaN"
| "js_add PosInf NegInf = NaN"
| "js_add NegInf PosInf = NaN"
| "js_add PosInf y = PosInf"
| "js_add NegInf y = NegInf"
| "js_add x PosInf = PosInf"
| "js_add x NegInf = NegInf"
| "js_add NegZero y = y"
| "js_add x NegZero = x"
| "js_add (Fin a) (Fin b) = round_double (a + b)"

fun sign_bit :: "number \<Rightarrow> bool" where
  "sign_bit (Fin r) = (r < 0)"
| "sign_bit NegZero = True"
| "sign_bit NegInf = True"
| "sign_bit PosInf = False"
| "sign_bit NaN = False"

fun js_abs :: "number \<Rightarrow> number" where
  "js_abs (Fin r) = Fin \<bar>r\<bar>"
| "js_abs NegZero = Fin 0"
| "js_abs PosInf = PosInf"
| "js_abs NegInf = PosInf"
| "js_abs NaN = NaN"

text \<open>The product of two numbers that are not negative.\<close>

fun mul_abs :: "number \<Rightarrow> number \<Rightarrow> number" where
  "mul_abs (Fin a) (Fin b) = round_double (a * b)"
| "mul_abs PosInf (Fin b) = (if b = 0 then NaN else PosInf)"
| "mul_abs (Fin a) PosInf = (if a = 0 then NaN else PosInf)"
| "mul_abs PosInf PosInf = PosInf"
| "mul_abs x y = NaN"

definition js_mul :: "number \<Rightarrow> number \<Rightarrow> number" where
  "js_mul x y =
     (if sign_bit x = sign_bit y then mul_abs (js_abs x) (js_abs y)
      else js_neg (mul_abs (js_abs x) (js_abs y)))"

text \<open>\<open>x === 0\<close>, which holds of both zeros; the truth value of a number; \<open>x < y\<close>.\<close>

definition is_zero :: "number \<Rightarrow> bool" where
  "is_zero x = (x = Fin 0 \<or> x = NegZero)"

definition truthy :: "number \<Rightarrow> bool" where
  "truthy x = (\<not> is_zero x \<and> x \<noteq> NaN)"

fun js_lt :: "number \<Rightarrow> number \<Rightarrow> bool" where
  "js_lt NaN y = False"
| "js_lt x NaN = False"
| "js_lt PosInf y = False"
| "js_lt x NegInf = False"
| "js_lt NegInf y = True"
| "js_lt x PosInf = True"
| "js_lt NegZero NegZero = False"
| "js_lt NegZero (Fin b) = (0 < b)"
| "js_lt (Fin a) NegZero = (a < 0)"
| "js_lt (Fin a) (Fin b) = (a < b)"

subsection \<open>Number.prototype.toString\<close>

text \<open>
  A template literal renders a number with Number.prototype.toString: of the decimals
  \<open>s * 10^(n-k)\<close> with \<open>k\<close> digits that read back as the number, one with the least \<open>k\<close>, and
  of these the nearest to the number; then plain digits, a decimal point or the exponent
  form, as \<open>n\<close> and \<open>k\<close> require. Every double has such a decimal of at most 17 digits.
\<close>

function show_int :: "int \<Rightarrow> string" where
  "show_int n =
     (if n < 10 then [''0123456789'' ! nat n]
      else show_int (n div 10) @ [''0123456789'' ! nat (n mod 10)])"
  by pat_completeness auto
termination
  by (relation "measure nat") auto

declare show_int.simps [simp del]

definition pow10 :: "int \<Rightarrow> rat" where
  "pow10 k = (if 0 \<le> k then 10 ^ nat k else 1 / 10 ^ nat (- k))"

text \<open>For \<open>0 < v\<close>, the \<open>n\<close> with \<open>10^(n-1) \<le> v < 10^n\<close>.\<close>

definition dec_exp :: "rat \<Rightarrow> int" where
  "dec_exp v =
     (if 1 \<le> v then int (length (show_int \<lfloor>v\<rfloor>))
      else 1 - int (length (show_int (\<lceil>1 / v\<rceil> - 1))))"

definition reads_as :: "rat \<Rightarrow> int \<Rightarrow> int \<Rightarrow> bool" where
  "reads_as v s p = (round_double (of_int s * pow10 p) = Fin v)"

text \<open>
  The \<open>k\<close>-digit decimals next to \<open>v\<close> are the one below it and the one above it; when both
  read back as \<open>v\<close> the nearer is taken, and the even one when they are equally near.
\<close>

definition candidate :: "rat \<Rightarrow> int \<Rightarrow> nat \<Rightarrow> int option" where
  "candidate v n k =
     (let p = n - int k;
          lo = \<lfloor>v / pow10 p\<rfloor>;
          hi = lo + 1
      in if reads_as v lo p
         then (if reads_as v hi p
                  \<and> (of_int hi * pow10 p - v < v - of_int lo * pow10 p
                      \<or> (of_int hi * pow10 p - v = v - of_int lo * pow10 p \<and> even hi))
               then Some hi else Some lo)
         else if reads_as v hi p then Some hi else None)"

fun shortest :: "rat \<Rightarrow> int \<Rightarrow> nat list \<Rightarrow> (int \<times> nat) option" where
  "shortest v n [] = None"
| "shortest v n (k # ks) =
     (case candidate v n k of Some s \<Rightarrow> Some (s, k) | None \<Rightarrow> shortest v n ks)"

definition layout :: "string \<Rightarrow> int \<Rightarrow> string" where
  "layout ds n =
     (let k = int (length ds) in
      if k \<le> n \<and> n \<le> 21 then ds @ replicate (nat (n - k)) (CHR ''0'')
      else if 0 < n \<and> n \<le> 21 then take (nat n) ds @ ''.'' @ drop (nat n) ds
      else if - 6 < n \<and> n \<le> 0 then ''0.'' @ replicate (nat (- n)) (CHR ''0'') @ ds
      else take 1 ds @ (if k = 1 then [] else ''.'' @ drop 1 ds) @ ''e''
           @ (if 0 \<le> n - 1 then ''+'' else ''-'') @ show_int \<bar>n - 1\<bar>)"

text \<open>
  The digits of a positive double. A rational that is not a double has no decimal that
  reads back as it, and is printed as the double nearest to it.
\<close>

definition digits_of :: "rat \<Rightarrow> string" where
  "digits_of v =
     (case shortest v (dec_exp v) [1 ..< 18] of
        None \<Rightarrow> []
      | Some (s, k) \<Rightarrow>
          if s = 10 ^ k then layout ''1'' (dec_exp v + 1)
          else layout (show_int s) (dec_exp v))"

fun js_number :: "number \<Rightarrow> string" where
  "js_number NaN = ''NaN''"
| "js_number NegZero = ''0''"
| "js_number PosInf = ''Infinity''"
| "js_number NegInf = ''-Infinity''"
| "js_number (Fin r) =
     (case round_double r of
        Fin v \<Rightarrow>
          if v = 0 then ''0''
          else if v < 0 then ''-'' @ digits_of (- v)
          else digits_of v
      | NegZero \<Rightarrow> ''0''
      | PosInf \<Rightarrow> ''Infinity''
      | NegInf \<Rightarrow> ''-Infinity''
      | NaN \<Rightarrow> ''NaN'')"

datatype error =
    InvalidVariableType
  | InvalidLowerBound
  | InvalidUpperBound
  | DuplicateVariableName string
  | InvalidSense
  | InvalidComparison
  | InvalidTerm
  | InvalidQuadraticTerm
  | InvalidArrayItem
  | InvalidExpressionItem
  | QuadraticUnsupported
  | SyntaxError
  | TypeError
  | ReservedKey string
  | SolverError

section \<open>Var, Constr and Model (model.js)\<close>

text \<open>
  A lower bound is a number or the string \<open>-infinity\<close>, an upper bound a number or
  \<open>+infinity\<close>; the constructor of Var refuses anything else, so a stored bound has one
  of these two shapes. \<open>bound_arg\<close> is what a caller or the parser passes in.
\<close>

datatype lower_bound = LowerNumber number | MinusInfinity

datatype upper_bound = UpperNumber number | PlusInfinity

datatype bound_arg = ArgNumber number | ArgMinusInfinity | ArgPlusInfinity

datatype vkind = CONTINUOUS | BINARY | INTEGER

text \<open>
  The field \<open>val\<close> is the property \<open>value\<close> of a Var: null or undefined is \<open>None\<close>.
  Objects are held by value: a term holds the variable as it was when the term was built.
  Through a term the code reads only the name of a variable, which never changes; the
  values and kinds that later calls write are those of the variables in the model's map.
\<close>

record var =
  name :: string
  lb :: lower_bound
  ub :: upper_bound
  vtype :: vkind
  val :: "number option"

text \<open>
  An element of an expression as a caller writes it: a number, a Var, an array of two or
  three elements, an array of another length, or anything else. In an array the
  coefficient is \<open>None\<close> when it is not a number, and a variable position is \<open>None\<close>
  when it does not hold an instance of Var.
\<close>

datatype item =
    Num number
  | VarItem var
  | Array2 "number option" "var option"
  | Array3 "number option" "var option" "var option"
  | ArrayOther nat
  | OtherItem

text \<open>
  A stored term is the array \<open>[coeff, varObj]\<close> or \<open>[coeff, v1, v2]\<close>; the two variables of
  a quadratic term are what \<open>this.variables.get\<close> returned, which is undefined for a name
  the model does not hold. A parsed expression is the array whose slot 0 is the constant
  and whose further slots are the terms.
\<close>

datatype pterm = Lin number var | Quad number "var option" "var option"

record expr =
  econst :: number
  eterms :: "pterm list"

fun coeff :: "pterm \<Rightarrow> number" where
  "coeff (Lin c v) = c"
| "coeff (Quad c x y) = c"

fun bump :: "number \<Rightarrow> pterm \<Rightarrow> pterm" where
  "bump d (Lin c v) = Lin (js_add c d) v"
| "bump d (Quad c x y) = Quad (js_add c d) x y"

fun item_of :: "pterm \<Rightarrow> item" where
  "item_of (Lin c v) = Array2 (Some c) (Some v)"
| "item_of (Quad c x y) = Array3 (Some c) x y"

definition items_of :: "expr \<Rightarrow> item list" where
  "items_of e = Num (econst e) # map item_of (eterms e)"

record constr =
  lhs :: expr
  comparison :: string
  rhs :: number
  primal :: "number option"
  dual :: "number option"

record objective_t =
  expression :: expr
  sense :: string

text \<open>What the three engines answer (the fields the decoders read).\<close>

record glpk_result =
  gstatus :: number
  gz :: number
  gvars :: "(string \<times> number) list"
  gdual :: "(string \<times> number) list option"

record highs_row =
  Primal :: "number option"
  Dual :: "number option"
  Name :: string

record highs_solution =
  Status :: string
  ObjectiveValue :: number
  Columns :: "(string \<times> number option) list"
  Rows :: "highs_row list"

record jslp_solution =
  feasible :: bool
  result :: "number option"
  bounded :: bool
  entries :: "(string \<times> number) list"

datatype raw_solution =
    GLPKSolution glpk_result
  | HighsSolution highs_solution
  | JSLPSolution jslp_solution

datatype status_val = StatusNull | StatusString string | StatusNumber number

record model =
  variables :: "(string \<times> var) list"
  constraints :: "constr list"
  objective :: objective_t
  varCount :: nat
  solution :: "raw_solution option"
  status :: status_val
  ObjVal :: "number option"

definition new_Model :: model where
  "new_Model =
     \<lparr>variables = [], constraints = [],
      objective = \<lparr>expression = \<lparr>econst = Fin 0, eterms = []\<rparr>, sense = ''MAXIMIZE''\<rparr>,
      varCount = 0, solution = None, status = StatusNull, ObjVal = None\<rparr>"

definition variables_has :: "model \<Rightarrow> string \<Rightarrow> bool" where
  "variables_has m k = (map_of (variables m) k \<noteq> None)"

definition variables_get :: "model \<Rightarrow> string \<Rightarrow> var option" where
  "variables_get m k = map_of (variables m) k"

subsection \<open>parseExpression\<close>

text \<open>
  The object \<open>combined\<close>: the accumulator under the key \<open>constant\<close> and the own properties
  created for terms, in creation order. It is an ordinary object, so three kinds of key
  do not behave as dictionary keys:
  \<^item> \<open>constant\<close> is the accumulator's own slot and \<open>__proto__\<close> is the prototype accessor;
    a variable of that name makes the code overwrite or misread the slot, and what it
    then returns is an array whose slot 0 is no number, unless a later step raises a
    TypeError. The embedding does not follow the code there: it stops with \<open>ReservedKey\<close>;
  \<^item> a name inherited from Object.prototype reads as a function, which is truthy: the
    code adds the coefficient to a slot of that function and \<open>combined\<close> gets no
    property, so the term is lost;
  \<^item> a key that is an array index is enumerated by \<open>for ... in\<close> before every other key, in
    ascending numeric order.
\<close>

record combined =
  const_acc :: number
  props :: "(string \<times> pterm) list"

definition clobbered_keys :: "string list" where
  "clobbered_keys = [''constant'', ''__proto__'']"

definition inherited_keys :: "string list" where
  "inherited_keys =
     [''constructor'', ''hasOwnProperty'', ''isPrototypeOf'', ''propertyIsEnumerable'',
      ''toLocaleString'', ''toString'', ''valueOf'', ''__defineGetter__'',
      ''__defineSetter__'', ''__lookupGetter__'', ''__lookupSetter__'']"

fun assign :: "string \<Rightarrow> (pterm \<Rightarrow> pterm) \<Rightarrow> (string \<times> pterm) list \<Rightarrow> (string \<times> pterm) list" where
  "assign k f [] = []"
| "assign k f ((k', t) # ps) = (if k' = k then (k', f t) # ps else (k', t) # assign k f ps)"

definition add_term :: "string \<Rightarrow> number \<Rightarrow> pterm \<Rightarrow> combined \<Rightarrow> error + combined" where
  "add_term k c fresh cmb =
     (if k \<in> set clobbered_keys then Inl (ReservedKey k)
      else if k \<in> set inherited_keys then Inr cmb
      else (case map_of (props cmb) k of
              Some t \<Rightarrow> Inr (cmb\<lparr>props := assign k (bump c) (props cmb)\<rparr>)
            | None \<Rightarrow> Inr (cmb\<lparr>props := props cmb @ [(k, fresh)]\<rparr>)))"

definition termName :: "string \<Rightarrow> string \<Rightarrow> string" where
  "termName v1 v2 = v1 @ ''_***_'' @ v2"

fun step :: "model \<Rightarrow> combined \<Rightarrow> item \<Rightarrow> error + combined" where
  "step m cmb (Array2 (Some c) (Some v)) = add_term (name v) c (Lin c v) cmb"
| "step m cmb (Array2 co vo) = Inl InvalidTerm"
| "step m cmb (Array3 (Some c) (Some x) (Some y)) =
     (let v1 = (if name x > name y then name y else name x);
          v2 = (if name x > name y then name x else name y)
      in add_term (termName v1 v2) c (Quad c (variables_get m v1) (variables_get m v2)) cmb)"
| "step m cmb (Array3 co xo yo) = Inl InvalidQuadraticTerm"
| "step m cmb (ArrayOther n) = Inl InvalidArrayItem"
| "step m cmb (VarItem v) = add_term (name v) (Fin 1) (Lin (Fin 1) v) cmb"
| "step m cmb (Num x) = Inr (cmb\<lparr>const_acc := js_add (const_acc cmb) x\<rparr>)"
| "step m cmb OtherItem = Inl InvalidExpressionItem"

fun for_items :: "model \<Rightarrow> combined \<Rightarrow> item list \<Rightarrow> error + combined" where
  "for_items m cmb [] = Inr cmb"
| "for_items m cmb (x # xs) =
     (case step m cmb x of Inl e \<Rightarrow> Inl e | Inr cmb' \<Rightarrow> for_items m cmb' xs)"

text \<open>
  An array index is the canonical decimal numeral of a number below \<open>2^32 - 1\<close>, that is,
  below 4294967295; numerals of the same length compare as their strings do.
\<close>

definition is_array_index :: "string \<Rightarrow> bool" where
  "is_array_index k =
     (k \<noteq> [] \<and> list_all is_digit k \<and> (k = ''0'' \<or> hd k \<noteq> CHR ''0'')
      \<and> (length k < 10 \<or> (length k = 10 \<and> k < ''4294967295'')))"

definition for_in :: "(string \<times> pterm) list \<Rightarrow> (string \<times> pterm) list" where
  "for_in ps =
     sort_key (\<lambda>p. nat_of_digits (fst p)) (filter (\<lambda>p. is_array_index (fst p)) ps)
     @ filter (\<lambda>p. \<not> is_array_index (fst p)) ps"

definition parseExpression :: "model \<Rightarrow> item list \<Rightarrow> error + expr" where
  "parseExpression m xs =
     (case for_items m \<lparr>const_acc = Fin 0, props = []\<rparr> xs of
        Inl e \<Rightarrow> Inl e
      | Inr cmb \<Rightarrow>
          Inr \<lparr>econst = const_acc cmb,
               eterms = filter (\<lambda>t. \<not> is_zero (coeff t)) (map snd (for_in (props cmb)))\<rparr>)"

subsection \<open>setObjective and addConstr\<close>

definition setObjective :: "model \<Rightarrow> item list \<Rightarrow> string \<Rightarrow> error + model" where
  "setObjective m expr_in sns =
     (if toUpperCase sns \<notin> set [''MAXIMIZE'', ''MINIMIZE''] then Inl InvalidSense
      else (case parseExpression m expr_in of
              Inl e \<Rightarrow> Inl e
            | Inr e \<Rightarrow> Inr (m\<lparr>objective := \<lparr>expression = e, sense = sns\<rparr>\<rparr>)))"

datatype rhs_arg = RhsNumber number | RhsExpression "item list"

text \<open>
  The right side handed to \<open>rhs.map\<close> is \<open>[rhs]\<close> for a number and a parsed expression
  otherwise, so the function mapped over it meets a number in slot 0 and stored terms
  after it.
\<close>

fun negate :: "pterm \<Rightarrow> pterm" where
  "negate (Lin c v) = Lin (js_neg c) v"
| "negate (Quad c x y) = Quad (js_neg c) x y"

definition negated :: "expr \<Rightarrow> item list" where
  "negated r = Num (js_neg (econst r)) # map (\<lambda>t. item_of (negate t)) (eterms r)"

definition addConstr :: "model \<Rightarrow> item list \<Rightarrow> string \<Rightarrow> rhs_arg \<Rightarrow> error + (model \<times> constr)" where
  "addConstr m lhs_in cmp rhs_in =
     (case parseExpression m lhs_in of
        Inl e \<Rightarrow> Inl e
      | Inr l \<Rightarrow>
          (case (case rhs_in of
                   RhsNumber r \<Rightarrow> Inr \<lparr>econst = r, eterms = []\<rparr>
                 | RhsExpression ex \<Rightarrow> parseExpression m ex) of
             Inl e \<Rightarrow> Inl e
           | Inr r \<Rightarrow>
               (let cmp' = (if cmp = ''=='' then ''='' else cmp) in
                if cmp' \<notin> set [''<='', ''='', ''>=''] then Inl InvalidComparison
                else (case parseExpression m (items_of l @ negated r) of
                        Inl e \<Rightarrow> Inl e
                      | Inr finalLhs \<Rightarrow>
                          (let constraint =
                                 \<lparr>lhs = finalLhs\<lparr>econst := Fin 0\<rparr>, comparison = cmp',
                                  rhs = js_neg (econst finalLhs), primal = None, dual = None\<rparr>
                           in Inr (m\<lparr>constraints := constraints m @ [constraint]\<rparr>, constraint))))))"

section \<open>Creating variables\<close>

definition vkind_of :: "string \<Rightarrow> vkind option" where
  "vkind_of s =
     (if s = ''CONTINUOUS'' then Some CONTINUOUS
      else if s = ''BINARY'' then Some BINARY
      else if s = ''INTEGER'' then Some INTEGER
      else None)"

fun lower_of :: "bound_arg \<Rightarrow> lower_bound option" where
  "lower_of (ArgNumber r) = Some (LowerNumber r)"
| "lower_of ArgMinusInfinity = Some MinusInfinity"
| "lower_of ArgPlusInfinity = None"

fun upper_of :: "bound_arg \<Rightarrow> upper_bound option" where
  "upper_of (ArgNumber r) = Some (UpperNumber r)"
| "upper_of ArgPlusInfinity = Some PlusInfinity"
| "upper_of ArgMinusInfinity = None"

record var_options =
  opt_lb :: "bound_arg option"
  opt_ub :: "bound_arg option"
  opt_vtype :: "string option"
  opt_name :: "string option"

definition no_options :: var_options where
  "no_options = \<lparr>opt_lb = None, opt_ub = None, opt_vtype = None, opt_name = None\<rparr>"

text \<open>The constructor of Var; the name has been chosen by the caller.\<close>

definition new_Var :: "var_options \<Rightarrow> string \<Rightarrow> error + var" where
  "new_Var opts nm =
     (case vkind_of (toUpperCase (case opt_vtype opts of None \<Rightarrow> ''CONTINUOUS'' | Some s \<Rightarrow> s)) of
        None \<Rightarrow> Inl InvalidVariableType
      | Some k \<Rightarrow>
          (case lower_of (case opt_lb opts of None \<Rightarrow> ArgNumber (Fin 0) | Some b \<Rightarrow> b) of
             None \<Rightarrow> Inl InvalidLowerBound
           | Some l \<Rightarrow>
               (case upper_of (case opt_ub opts of None \<Rightarrow> ArgPlusInfinity | Some b \<Rightarrow> b) of
                  None \<Rightarrow> Inl InvalidUpperBound
                | Some u \<Rightarrow> Inr \<lparr>name = nm, lb = l, ub = u, vtype = k, val = None\<rparr>)))"

text \<open>
  addVar without a name tries \<open>Var<varCount>\<close>, \<open>Var<varCount+1>\<close>, ... until a name is free.
  The loop ends because decimal numerals of different numbers differ, so only finitely
  many of the candidates are taken.
\<close>

function unused_name :: "model \<Rightarrow> nat \<Rightarrow> nat" where
  "unused_name m n =
     (if variables_has m (''Var'' @ show_nat n) then unused_name m (n + 1) else n)"
  by pat_completeness auto
termination
proof -
  have digit: "digit_of (''0123456789'' ! d) = Some d" if "d < 10" for d
  proof -
    have "\<forall>d \<in> set [0 ..< 10]. digit_of (''0123456789'' ! d) = Some d"
      by code_simp
    then show ?thesis using that by simp
  qed
  have snoc: "nat_of_digits (s @ [c])
               = 10 * nat_of_digits s + (case digit_of c of Some d \<Rightarrow> d | None \<Rightarrow> 0)" for s c
    by (simp add: nat_of_digits_def)
  have reads_back: "nat_of_digits (show_nat n) = n" for n
  proof (induction n rule: show_nat.induct)
    case (1 n)
    show ?case
    proof (cases "n < 10")
      case True
      then show ?thesis
        using snoc[of "[]" "''0123456789'' ! n"]
        by (simp add: show_nat.simps[of n] digit nat_of_digits_def)
    next
      case False
      then have "nat_of_digits (show_nat (n div 10)) = n div 10"
        using 1 by simp
      then show ?thesis
        using False by (simp add: show_nat.simps[of n] snoc digit)
    qed
  qed
  have "inj show_nat"
    by (rule inj_on_inverseI[where g = nat_of_digits]) (rule reads_back)
  then have inj: "inj (\<lambda>k. ''Var'' @ show_nat k)"
    by (auto simp: inj_def)
  have fin: "finite {k. variables_has m (''Var'' @ show_nat k)}" for m
  proof -
    have "finite ((\<lambda>k. ''Var'' @ show_nat k) -` (fst ` set (variables m)))"
      using inj by (intro finite_vimageI) simp_all
    moreover have "{k. variables_has m (''Var'' @ show_nat k)}
                   \<subseteq> (\<lambda>k. ''Var'' @ show_nat k) -` (fst ` set (variables m))"
      by (auto simp: variables_has_def map_of_eq_None_iff)
    ultimately show ?thesis by (rule rev_finite_subset)
  qed
  have less: "card {k. n + 1 \<le> k \<and> variables_has m (''Var'' @ show_nat k)}
              < card {k. n \<le> k \<and> variables_has m (''Var'' @ show_nat k)}"
    if h: "variables_has m (''Var'' @ show_nat n)" for m n
  proof -
    let ?A = "{k. n + 1 \<le> k \<and> variables_has m (''Var'' @ show_nat k)}"
    let ?B = "{k. n \<le> k \<and> variables_has m (''Var'' @ show_nat k)}"
    have finB: "finite ?B"
      using fin[of m] by (rule rev_finite_subset) auto
    have "n \<in> ?B" "n \<notin> ?A" using h by simp_all
    moreover have "?A \<subseteq> ?B" by auto
    ultimately have "?A \<subset> ?B" by blast
    then show ?thesis using finB by (rule psubset_card_mono[rotated])
  qed
  show ?thesis
    by (relation "measure (\<lambda>(m, n). card {k. n \<le> k \<and> variables_has m (''Var'' @ show_nat k)})")
       (use less in simp_all)
qed

declare unused_name.simps [simp del]

text \<open>
  addVar changes the model in place: the counter has already moved when the constructor
  of Var raises, so the model is returned in both cases.
\<close>

definition addVar :: "model \<Rightarrow> var_options \<Rightarrow> model \<times> (error + var)" where
  "addVar m opts =
     (case opt_name opts of
        None \<Rightarrow>
          (let n = unused_name m (varCount m);
               nm = ''Var'' @ show_nat n;
               m1 = m\<lparr>varCount := n + 1\<rparr>
           in case new_Var opts nm of
                Inl e \<Rightarrow> (m1, Inl e)
              | Inr v \<Rightarrow> (m1\<lparr>variables := variables m1 @ [(nm, v)]\<rparr>, Inr v))
      | Some nm \<Rightarrow>
          if variables_has m nm then (m, Inl (DuplicateVariableName nm))
          else (case new_Var opts nm of
                  Inl e \<Rightarrow> (m, Inl e)
                | Inr v \<Rightarrow> (m\<lparr>variables := variables m @ [(nm, v)]\<rparr>, Inr v)))"

section \<open>Writing the LP format\<close>

text \<open>
  \<open>expressionToString\<close> is handed the array or a slice of it: the constant when it is kept,
  and the terms. Reading \<open>.name\<close> of a variable that \<open>variables.get\<close> did not find raises a
  TypeError.
\<close>

fun termToString :: "pterm \<Rightarrow> error + string" where
  "termToString (Lin c v) = Inr (js_number c @ '' '' @ name v)"
| "termToString (Quad c (Some x) (Some y)) =
     Inr (''[ '' @ js_number (js_mul c (Fin 2)) @ '' '' @ name x @ '' * '' @ name y @ '' ]/2'')"
| "termToString (Quad c xo yo) = Inl TypeError"

fun sequence :: "(error + 'a) list \<Rightarrow> error + 'a list" where
  "sequence [] = Inr []"
| "sequence (r # rs) =
     (case r of
        Inl e \<Rightarrow> Inl e
      | Inr x \<Rightarrow> (case sequence rs of Inl e \<Rightarrow> Inl e | Inr xs \<Rightarrow> Inr (x # xs)))"

fun join :: "string \<Rightarrow> string list \<Rightarrow> string" where
  "join sep [] = []"
| "join sep [s] = s"
| "join sep (s # t # ss) = s @ sep @ join sep (t # ss)"

fun replace_plus_minus :: "string \<Rightarrow> string" where
  "replace_plus_minus (a # b # c # cs) =
     (if a = CHR ''+'' \<and> b = CHR '' '' \<and> c = CHR ''-'' then CHR ''-'' # CHR '' '' # replace_plus_minus cs
      else a # replace_plus_minus (b # c # cs))"
| "replace_plus_minus cs = cs"

definition expressionToString :: "number option \<Rightarrow> pterm list \<Rightarrow> error + string" where
  "expressionToString c0 ts =
     (case sequence (map termToString ts) of
        Inl e \<Rightarrow> Inl e
      | Inr ss \<Rightarrow>
          Inr (replace_plus_minus
                 (join '' + '' ((case c0 of None \<Rightarrow> [] | Some c \<Rightarrow> [js_number c]) @ ss))))"

definition constraintLine :: "nat \<Rightarrow> constr \<Rightarrow> error + string" where
  "constraintLine index c =
     (case expressionToString None (eterms (lhs c)) of
        Inl e \<Rightarrow> Inl e
      | Inr s \<Rightarrow>
          Inr ('' c'' @ show_nat (index + 1) @ '': '' @ s @ '' '' @ comparison c @ '' ''
               @ js_number (rhs c) @ [CHR 0x0A]))"

fun lowerToString :: "lower_bound \<Rightarrow> string" where
  "lowerToString MinusInfinity = ''-inf''"
| "lowerToString (LowerNumber r) = js_number r"

fun upperToString :: "upper_bound \<Rightarrow> string" where
  "upperToString PlusInfinity = ''+inf''"
| "upperToString (UpperNumber r) = js_number r"

text \<open>\<open>varObj.lb !== 0\<close>, of a bound that is a number or the string \<open>-infinity\<close>.\<close>

fun lower_not_zero :: "lower_bound \<Rightarrow> bool" where
  "lower_not_zero MinusInfinity = True"
| "lower_not_zero (LowerNumber r) = (\<not> is_zero r)"

definition boundLine :: "string \<Rightarrow> string \<times> var \<Rightarrow> string" where
  "boundLine indent p =
     (if lower_not_zero (lb (snd p)) \<or> ub (snd p) \<noteq> PlusInfinity
      then indent @ lowerToString (lb (snd p)) @ '' <= '' @ fst p @ '' <= ''
           @ upperToString (ub (snd p)) @ [CHR 0x0A]
      else [])"

text \<open>
  The writer of lp-format.js starts a bound line with a blank; the one of
  write-lp-format.js, which Model.toLPFormat calls, does not. They are otherwise the same
  function, here with the start of a bound line as a parameter.
\<close>

definition writeLP :: "string \<Rightarrow> model \<Rightarrow> error + string" where
  "writeLP indent m =
     (let obj = expression (objective m) in
      case expressionToString (if is_zero (econst obj) then None else Some (econst obj)) (eterms obj) of
        Inl e \<Rightarrow> Inl e
      | Inr objString \<Rightarrow>
          (case sequence (map (\<lambda>(i, c). constraintLine i c)
                            (zip [0 ..< length (constraints m)] (constraints m))) of
             Inl e \<Rightarrow> Inl e
           | Inr ls \<Rightarrow>
               (let generalVars = map fst (filter (\<lambda>p. vtype (snd p) = INTEGER) (variables m));
                    binaryVars = map fst (filter (\<lambda>p. vtype (snd p) = BINARY) (variables m))
                in Inr ((if toUpperCase (sense (objective m)) = ''MAXIMIZE''
                         then ''Maximize'' else ''Minimize'') @ [CHR 0x0A]
                        @ ''obj: '' @ objString @ [CHR 0x0A]
                        @ (if constraints m \<noteq> [] then ''Subject To'' @ [CHR 0x0A] @ concat ls else [])
                        @ ''Bounds'' @ [CHR 0x0A]
                        @ concat (map (boundLine indent) (variables m))
                        @ (if generalVars \<noteq> []
                           then ''General'' @ [CHR 0x0A] @ '' '' @ join '' '' generalVars @ [CHR 0x0A]
                           else [])
                        @ (if binaryVars \<noteq> []
                           then ''Binary'' @ [CHR 0x0A] @ '' '' @ join '' '' binaryVars @ [CHR 0x0A]
                           else [])
                        @ ''End'' @ [CHR 0x0A]))))"

definition toLPFormat :: "model \<Rightarrow> error + string" where
  "toLPFormat m = writeLP '' '' m"

definition Model_toLPFormat :: "model \<Rightarrow> error + string" where
  "Model_toLPFormat m = writeLP [] m"

section \<open>The three bridges\<close>

subsection \<open>isQuadratic\<close>

fun is_length3 :: "pterm \<Rightarrow> bool" where
  "is_length3 (Quad c x y) = True"
| "is_length3 (Lin c v) = False"

definition isQuadraticExpression :: "expr \<Rightarrow> bool" where
  "isQuadraticExpression e = list_ex is_length3 (eterms e)"

definition isQuadratic :: "model \<Rightarrow> bool" where
  "isQuadratic m =
     (isQuadraticExpression (expression (objective m))
      \<or> list_ex (\<lambda>c. isQuadraticExpression (lhs c)) (constraints m))"

subsection \<open>glpk.js\<close>

definition GLP_MIN :: nat where "GLP_MIN = 1"
definition GLP_MAX :: nat where "GLP_MAX = 2"
definition GLP_FR :: nat where "GLP_FR = 1"
definition GLP_LO :: nat where "GLP_LO = 2"
definition GLP_UP :: nat where "GLP_UP = 3"
definition GLP_DB :: nat where "GLP_DB = 4"
definition GLP_FX :: nat where "GLP_FX = 5"
definition GLP_UNDEF :: nat where "GLP_UNDEF = 1"
definition GLP_FEAS :: nat where "GLP_FEAS = 2"
definition GLP_INFEAS :: nat where "GLP_INFEAS = 3"
definition GLP_NOFEAS :: nat where "GLP_NOFEAS = 4"
definition GLP_OPT :: nat where "GLP_OPT = 5"
definition GLP_UNBND :: nat where "GLP_UNBND = 6"

record glpk_coef =
  coef_name :: string
  coef :: number

record glpk_bnds =
  bnds_type :: nat
  bnds_ub :: number
  bnds_lb :: number

record glpk_objective =
  direction :: nat
  objective_name :: string
  objective_vars :: "glpk_coef list"

record glpk_row =
  row_name :: string
  row_vars :: "glpk_coef list"
  row_bnds :: glpk_bnds

record glpk_bound =
  bound_name :: string
  bound_type :: nat
  bound_ub :: number
  bound_lb :: number

record glpk_model =
  lp_name :: string
  lp_objective :: glpk_objective
  subjectTo :: "glpk_row list"
  bounds :: "glpk_bound list"
  binaries :: "string list"
  generals :: "string list"

text \<open>\<open>{name: term[1].name, coef: term[0]}\<close>: slot 1 of a quadratic term is its first variable.\<close>

fun glpk_var :: "pterm \<Rightarrow> error + glpk_coef" where
  "glpk_var (Lin c v) = Inr \<lparr>coef_name = name v, coef = c\<rparr>"
| "glpk_var (Quad c (Some x) yo) = Inr \<lparr>coef_name = name x, coef = c\<rparr>"
| "glpk_var (Quad c None yo) = Inl TypeError"

definition glpk_row_of :: "nat \<Rightarrow> constr \<Rightarrow> error + glpk_row" where
  "glpk_row_of index c =
     (case sequence (map glpk_var (eterms (lhs c))) of
        Inl e \<Rightarrow> Inl e
      | Inr vs \<Rightarrow>
          Inr \<lparr>row_name = ''cons'' @ show_nat (index + 1), row_vars = vs,
               row_bnds =
                 \<lparr>bnds_type = (if comparison c = ''<='' then GLP_UP
                               else if comparison c = ''>='' then GLP_LO else GLP_DB),
                  bnds_ub = (if comparison c = ''<='' then rhs c else Fin 0),
                  bnds_lb = (if comparison c = ''>='' then rhs c else Fin 0)\<rparr>\<rparr>)"

definition glpk_bound_of :: "var \<Rightarrow> glpk_bound" where
  "glpk_bound_of v =
     \<lparr>bound_name = name v,
      bound_type =
        (if lb v = MinusInfinity then (if ub v = PlusInfinity then GLP_FR else GLP_UP)
         else if ub v = PlusInfinity then GLP_LO else GLP_DB),
      bound_ub = (case ub v of PlusInfinity \<Rightarrow> Fin 0 | UpperNumber r \<Rightarrow> r),
      bound_lb = (case lb v of MinusInfinity \<Rightarrow> Fin 0 | LowerNumber r \<Rightarrow> r)\<rparr>"

definition toGLPKFormat :: "model \<Rightarrow> error + glpk_model" where
  "toGLPKFormat m =
     (case sequence (map glpk_var (eterms (expression (objective m)))) of
        Inl e \<Rightarrow> Inl e
      | Inr ovs \<Rightarrow>
          (case sequence (map (\<lambda>(i, c). glpk_row_of i c)
                            (zip [0 ..< length (constraints m)] (constraints m))) of
             Inl e \<Rightarrow> Inl e
           | Inr rows \<Rightarrow>
               Inr \<lparr>lp_name = ''LP'',
                    lp_objective =
                      \<lparr>direction = (if toUpperCase (sense (objective m)) = ''MAXIMIZE''
                                    then GLP_MAX else GLP_MIN),
                       objective_name = ''obj'', objective_vars = ovs\<rparr>,
                    subjectTo = rows,
                    bounds = map (\<lambda>p. glpk_bound_of (snd p)) (variables m),
                    binaries = map (\<lambda>p. name (snd p))
                                 (filter (\<lambda>p. vtype (snd p) = BINARY) (variables m)),
                    generals = map (\<lambda>p. name (snd p))
                                 (filter (\<lambda>p. vtype (snd p) = INTEGER) (variables m))\<rparr>))"

definition Model_toGLPKFormat :: "model \<Rightarrow> error + glpk_model" where
  "Model_toGLPKFormat m = (if isQuadratic m then Inl QuadraticUnsupported else toGLPKFormat m)"

definition set_value :: "string \<Rightarrow> number option \<Rightarrow> (string \<times> var) list \<Rightarrow> (string \<times> var) list" where
  "set_value k x vs = map (\<lambda>p. if fst p = k then (fst p, (snd p)\<lparr>val := x\<rparr>) else p) vs"

definition readGLPKSolution :: "model \<Rightarrow> glpk_result \<Rightarrow> model" where
  "readGLPKSolution m sol =
     (let m1 = m\<lparr>status := StatusNumber (gstatus sol)\<rparr>;
          m2 = m1\<lparr>variables := foldl (\<lambda>vs p. set_value (fst p) (Some (snd p)) vs)
                                      (variables m1) (gvars sol)\<rparr>
      in case gdual sol of
           None \<Rightarrow> m2
         | Some d \<Rightarrow>
             m2\<lparr>constraints :=
                  map (\<lambda>(i, c). case map_of d (''cons'' @ show_nat (i + 1)) of
                                  None \<Rightarrow> c
                                | Some dualValue \<Rightarrow> c\<lparr>dual := Some dualValue\<rparr>)
                      (zip [0 ..< length (constraints m2)] (constraints m2))\<rparr>)"

subsection \<open>jsLPSolver\<close>

record jslp_constraint =
  cmin :: "number option"
  cmax :: "number option"
  cequal :: "number option"

type_synonym options = "(string \<times> number) list"

record jslp_model =
  optimize :: string
  opType :: string
  jconstraints :: "(string \<times> jslp_constraint) list"
  jvariables :: "(string \<times> (string \<times> number) list) list"
  ints :: "(string \<times> number) list"
  jbinaries :: "(string \<times> number) list"
  unrestricted :: "(string \<times> number) list"
  joptions :: options

text \<open>\<open>obj[k] = v\<close> on an object used as a dictionary: replace in place, or add at the end.\<close>

fun put :: "'k \<Rightarrow> 'v \<Rightarrow> ('k \<times> 'v) list \<Rightarrow> ('k \<times> 'v) list" where
  "put k v [] = [(k, v)]"
| "put k v ((k', v') # ps) = (if k' = k then (k, v) # ps else (k', v') # put k v ps)"

definition empty_constraint :: jslp_constraint where
  "empty_constraint = \<lparr>cmin = None, cmax = None, cequal = None\<rparr>"

definition jslp_variable :: "jslp_model \<Rightarrow> string \<times> var \<Rightarrow> jslp_model" where
  "jslp_variable j p =
     (let varName = fst p; varObj = snd p;
          j1 = j\<lparr>jvariables := put varName [] (jvariables j)\<rparr>;
          j2 = (if lb varObj = MinusInfinity
                   \<or> (case lb varObj of LowerNumber r \<Rightarrow> js_lt r (Fin 0) | MinusInfinity \<Rightarrow> False)
                then j1\<lparr>unrestricted := put varName (Fin 1) (unrestricted j1)\<rparr> else j1);
          j3 = (case lb varObj of
                  MinusInfinity \<Rightarrow> j2
                | LowerNumber r \<Rightarrow>
                    if \<not> is_zero r
                    then j2\<lparr>jconstraints :=
                              put (varName @ ''_lb'') (empty_constraint\<lparr>cmin := Some r\<rparr>)
                                  (jconstraints j2)\<rparr>
                    else j2);
          j4 = (case ub varObj of
                  PlusInfinity \<Rightarrow> j3
                | UpperNumber r \<Rightarrow>
                    j3\<lparr>jconstraints :=
                         put (varName @ ''_ub'') (empty_constraint\<lparr>cmax := Some r\<rparr>)
                             (jconstraints j3)\<rparr>)
      in if vtype varObj = BINARY then j4\<lparr>jbinaries := put varName (Fin 1) (jbinaries j4)\<rparr>
         else if vtype varObj = INTEGER then j4\<lparr>ints := put varName (Fin 1) (ints j4)\<rparr>
         else j4)"

text \<open>
  \<open>jsLPModel.variables[term[1].name]["objective"] = term[0]\<close>: a TypeError when slot 1 is
  undefined or when the dictionary has no entry of that name.
\<close>

fun slot1_name :: "pterm \<Rightarrow> error + string" where
  "slot1_name (Lin c v) = Inr (name v)"
| "slot1_name (Quad c (Some x) yo) = Inr (name x)"
| "slot1_name (Quad c None yo) = Inl TypeError"

definition jslp_objective_term :: "jslp_model \<Rightarrow> pterm \<Rightarrow> error + jslp_model" where
  "jslp_objective_term j t =
     (case slot1_name t of
        Inl e \<Rightarrow> Inl e
      | Inr n \<Rightarrow>
          (case map_of (jvariables j) n of
             None \<Rightarrow> Inl TypeError
           | Some col \<Rightarrow>
               Inr (j\<lparr>jvariables := put n (put ''objective'' (coeff t) col) (jvariables j)\<rparr>)))"

definition jslp_constraint_term :: "string \<Rightarrow> jslp_model \<Rightarrow> pterm \<Rightarrow> error + jslp_model" where
  "jslp_constraint_term constrName j t =
     (case slot1_name t of
        Inl e \<Rightarrow> Inl e
      | Inr n \<Rightarrow>
          (case map_of (jvariables j) n of
             None \<Rightarrow> Inl TypeError
           | Some col \<Rightarrow>
               (let col1 = (if map_of col constrName = None then put constrName (Fin 0) col else col);
                    old = (case map_of col1 constrName of Some a \<Rightarrow> a | None \<Rightarrow> Fin 0)
                in Inr (j\<lparr>jvariables :=
                          put n (put constrName (js_add old (coeff t)) col1) (jvariables j)\<rparr>))))"

fun forEach :: "('s \<Rightarrow> 'a \<Rightarrow> error + 's) \<Rightarrow> 's \<Rightarrow> 'a list \<Rightarrow> error + 's" where
  "forEach f s [] = Inr s"
| "forEach f s (x # xs) = (case f s x of Inl e \<Rightarrow> Inl e | Inr s' \<Rightarrow> forEach f s' xs)"

definition jslp_constraint_of :: "jslp_model \<Rightarrow> nat \<times> constr \<Rightarrow> error + jslp_model" where
  "jslp_constraint_of j p =
     (let constrName = ''c'' @ show_nat (fst p); c = snd p;
          row = (if comparison c = ''<='' then empty_constraint\<lparr>cmax := Some (rhs c)\<rparr>
                 else if comparison c = ''>='' then empty_constraint\<lparr>cmin := Some (rhs c)\<rparr>
                 else if comparison c = ''='' then empty_constraint\<lparr>cequal := Some (rhs c)\<rparr>
                 else empty_constraint);
          j1 = j\<lparr>jconstraints := put constrName row (jconstraints j)\<rparr>
      in forEach (jslp_constraint_term constrName) j1 (eterms (lhs c)))"

definition toJSLPSolverFormat :: "model \<Rightarrow> options \<Rightarrow> error + jslp_model" where
  "toJSLPSolverFormat m opts =
     (let j0 = \<lparr>optimize = ''objective'', opType = take 3 (toLowerCase (sense (objective m))),
                jconstraints = [], jvariables = [], ints = [], jbinaries = [],
                unrestricted = [], joptions = opts\<rparr>;
          j1 = foldl jslp_variable j0 (variables m)
      in case forEach jslp_objective_term j1 (eterms (expression (objective m))) of
           Inl e \<Rightarrow> Inl e
         | Inr j2 \<Rightarrow>
             forEach jslp_constraint_of j2 (zip [0 ..< length (constraints m)] (constraints m)))"

definition Model_toJSLPSolverFormat :: "model \<Rightarrow> options \<Rightarrow> error + jslp_model" where
  "Model_toJSLPSolverFormat m opts = toJSLPSolverFormat m opts"

text \<open>
  The answer of jsLPSolver is one object holding \<open>feasible\<close>, \<open>result\<close>, \<open>bounded\<close> and an
  entry for each variable that is not zero; \<open>entries\<close> are the latter. So a variable whose
  own name is that of one of the fixed fields is outside this reading of \<open>varName in solution\<close>.
\<close>

definition readJSLPSolverSolution :: "model \<Rightarrow> jslp_solution \<Rightarrow> model" where
  "readJSLPSolverSolution m sol =
     (let m1 = m\<lparr>status := StatusString
                    (if feasible sol then (if bounded sol then ''Optimal'' else ''Unbounded'')
                     else ''Infeasible'')\<rparr>;
          m2 = m1\<lparr>variables :=
                    map (\<lambda>p. (fst p, (snd p)\<lparr>val := (case map_of (entries sol) (fst p) of
                                                       Some x \<Rightarrow> Some x
                                                     | None \<Rightarrow> Some (Fin 0))\<rparr>))
                        (variables m1)\<rparr>
      in case result sol of
           None \<Rightarrow> m2
         | Some r \<Rightarrow>
             if truthy r then m2\<lparr>ObjVal := Some (js_add r (econst (expression (objective m2))))\<rparr>
             else m2)"

subsection \<open>highs-js\<close>

definition set_row :: "highs_row \<Rightarrow> constr \<Rightarrow> constr" where
  "set_row row c = c\<lparr>primal := Primal row, dual := Dual row\<rparr>"

fun set_rows :: "highs_row list \<Rightarrow> constr list \<Rightarrow> constr list" where
  "set_rows (row # rows) (c # cs) = set_row row c # set_rows rows cs"
| "set_rows rows [] = []"
| "set_rows [] cs = cs"

definition readHighsSolution :: "model \<Rightarrow> highs_solution \<Rightarrow> model" where
  "readHighsSolution m sol =
     (let m1 = m\<lparr>status := StatusString (Status sol)\<rparr> in
      if Status sol \<noteq> ''Optimal'' \<and> Status sol \<noteq> ''Feasible'' then m1
      else m1\<lparr>variables := foldl (\<lambda>vs p. set_value (fst p) (snd p) vs)
                                  (variables m1) (Columns sol),
              constraints := set_rows (Rows sol) (constraints m1)\<rparr>)"

subsection \<open>solve\<close>

text \<open>
  An engine handle, as solve probes it: which of the four properties it has as own
  properties, and what its solving function answers to a request. The engine is outside
  the repository; its function may raise.
\<close>

record solver =
  has_branchAndCut :: bool
  has_lastSolvedModel :: bool
  has_GLP_OPT :: bool
  has_Highs_run :: bool
  Solve :: "jslp_model \<Rightarrow> error + jslp_solution"
  glpk_solve :: "glpk_model \<Rightarrow> options \<Rightarrow> error + glpk_result"
  highs_solve :: "string \<Rightarrow> options \<Rightarrow> error + highs_solution"

text \<open>
  solve changes the model in place, so what it has written stays written when a later
  step raises: the result is the model as the call leaves it, and the error if one was
  raised.
\<close>

definition clear_previous :: "model \<Rightarrow> model" where
  "clear_previous m =
     m\<lparr>solution := None,
       variables := map (\<lambda>p. (fst p, (snd p)\<lparr>val := None\<rparr>)) (variables m),
       constraints := map (\<lambda>c. c\<lparr>primal := None, dual := None\<rparr>) (constraints m),
       ObjVal := None\<rparr>"

definition solve :: "model \<Rightarrow> solver \<Rightarrow> options \<Rightarrow> model \<times> error option" where
  "solve m s opts =
     (let m1 = clear_previous m in
      if has_branchAndCut s \<and> has_lastSolvedModel s then
        (case Model_toJSLPSolverFormat m1 opts of
           Inl e \<Rightarrow> (m1, Some e)
         | Inr req \<Rightarrow>
             (case Solve s req of
                Inl e \<Rightarrow> (m1, Some e)
              | Inr sol \<Rightarrow>
                  (readJSLPSolverSolution (m1\<lparr>solution := Some (JSLPSolution sol)\<rparr>) sol, None)))
      else if has_GLP_OPT s then
        (case Model_toGLPKFormat m1 of
           Inl e \<Rightarrow> (m1, Some e)
         | Inr req \<Rightarrow>
             (case glpk_solve s req opts of
                Inl e \<Rightarrow> (m1, Some e)
              | Inr sol \<Rightarrow>
                  (readGLPKSolution (m1\<lparr>solution := Some (GLPKSolution sol)\<rparr>) sol, None)))
      else if has_Highs_run s then
        (case Model_toLPFormat m1 of
           Inl e \<Rightarrow> (m1, Some e)
         | Inr req \<Rightarrow>
             (case highs_solve s req opts of
                Inl e \<Rightarrow> (m1, Some e)
              | Inr sol \<Rightarrow>
                  (readHighsSolution (m1\<lparr>solution := Some (HighsSolution sol)\<rparr>) sol, None)))
      else (m1, None))"

section \<open>Reading the LP format (parse-lp-format.peggy, lp-format.js)\<close>

type_synonym 'a parser = "string \<Rightarrow> ('a \<times> string) option"

text \<open>
  A rule of the grammar is a function from the rest of the input to the value of the rule
  and what is left, or \<open>None\<close> when the rule does not match here. Peggy's operators: a
  sequence threads the input; an ordered choice takes the first alternative that matches
  and never returns to a later one; \<open>e?\<close>, \<open>e*\<close> and \<open>e+\<close> take as much as they can;
  \<open>!e\<close> looks ahead without consuming. A literal with the flag \<open>i\<close> compares without
  regard to case and yields the text as it stands in the input.
\<close>

definition lit :: "string \<Rightarrow> string parser" where
  "lit s inp = (if take (length s) inp = s then Some (s, drop (length s) inp) else None)"

definition liti :: "string \<Rightarrow> string parser" where
  "liti s inp =
     (if length s \<le> length inp \<and> toLowerCase (take (length s) inp) = toLowerCase s
      then Some (take (length s) inp, drop (length s) inp) else None)"

fun choice :: "'a parser list \<Rightarrow> 'a parser" where
  "choice [] inp = None"
| "choice (p # ps) inp = (case p inp of Some r \<Rightarrow> Some r | None \<Rightarrow> choice ps inp)"

definition optional :: "'a parser \<Rightarrow> 'a option parser" where
  "optional p inp = (case p inp of Some (v, rest) \<Rightarrow> Some (Some v, rest) | None \<Rightarrow> Some (None, inp))"

definition then_p :: "'a parser \<Rightarrow> ('a \<Rightarrow> 'b parser) \<Rightarrow> 'b parser" where
  "then_p p f inp = (case p inp of None \<Rightarrow> None | Some (v, rest) \<Rightarrow> f v rest)"

definition return_p :: "'a \<Rightarrow> 'a parser" where
  "return_p v inp = Some (v, inp)"

definition not_p :: "'a parser \<Rightarrow> unit parser" where
  "not_p p inp = (case p inp of Some r \<Rightarrow> None | None \<Rightarrow> Some ((), inp))"

text \<open>
  Peggy refuses a grammar in which a repeated expression can match the empty string, so
  each round of \<open>e*\<close> consumes input; the test on the lengths is that fact, stated where
  the recursion needs it.
\<close>

function many :: "'a parser \<Rightarrow> 'a list parser" where
  "many p inp =
     (case p inp of
        None \<Rightarrow> Some ([], inp)
      | Some (v, rest) \<Rightarrow>
          if length rest < length inp
          then (case many p rest of Some (vs, r) \<Rightarrow> Some (v # vs, r) | None \<Rightarrow> None)
          else None)"
  by pat_completeness auto
termination
  by (relation "measure (\<lambda>(p, inp). length inp)") auto

declare many.simps [simp del]

definition some :: "'a parser \<Rightarrow> 'a list parser" where
  "some p = then_p p (\<lambda>v. then_p (many p) (\<lambda>vs. return_p (v # vs)))"

definition char_in :: "string \<Rightarrow> char parser" where
  "char_in cls inp = (case inp of c # rest \<Rightarrow> if c \<in> set cls then Some (c, rest) else None | [] \<Rightarrow> None)"

definition whitespace_chars :: string where
  "whitespace_chars = [CHR '' '', CHR 0x09, CHR 0x0A, CHR 0x0D]"

definition comment :: "unit parser" where
  "comment inp =
     (case inp of
        c # rest \<Rightarrow>
          if c = CHR 0x5C then
            (case dropWhile (\<lambda>d. d \<noteq> CHR 0x0A) rest of
               [] \<Rightarrow> None
             | nl # rest' \<Rightarrow> Some ((), dropWhile (\<lambda>d. d \<in> set whitespace_chars) rest'))
          else None
      | [] \<Rightarrow> None)"

definition skip :: "unit parser" where
  "skip inp = then_p (many comment) (\<lambda>cs. return_p ()) (dropWhile (\<lambda>d. d \<in> set whitespace_chars) inp)"


subsection \<open>The parse tree\<close>

record lp_term =
  coefficient :: number
  variable :: "string option"

record lp_objective =
  objective_type :: string
  objective_label :: "string option"
  objective_expression :: "lp_term list"

record lp_constraint =
  constraint_label :: "string option"
  constraint_expression :: "lp_term list"
  constraint_sense :: string
  constraint_value :: number

record lp_bound =
  bound_variable :: string
  bound_lower :: "bound_arg option"
  bound_upper :: "bound_arg option"
  bound_free :: bool

record lp_file =
  file_objective :: lp_objective
  file_constraints :: "lp_constraint list"
  file_bounds :: "lp_bound list"
  file_general :: "string list"
  file_binary :: "string list"

subsection \<open>The rules\<close>

text \<open>
  \<open>parseFloat(text())\<close> of a text matched by Number is the double nearest to the decimal
  that the text denotes (\<open>decimal_value\<close>).
\<close>

definition digits1 :: "string parser" where
  "digits1 inp =
     (if takeWhile is_digit inp = [] then None
      else Some (takeWhile is_digit inp, dropWhile is_digit inp))"

definition decimal_value :: "string \<Rightarrow> string option \<Rightarrow> (bool \<times> string) option \<Rightarrow> rat" where
  "decimal_value ip fp ep =
     (let mant = of_nat (nat_of_digits ip)
                 + (case fp of None \<Rightarrow> 0
                    | Some f \<Rightarrow> of_nat (nat_of_digits f) / 10 ^ length f)
      in case ep of
           None \<Rightarrow> mant
         | Some (neg, e) \<Rightarrow>
             if neg then mant / 10 ^ nat_of_digits e else mant * 10 ^ nat_of_digits e)"

definition Number :: "number parser" where
  "Number =
     then_p digits1 (\<lambda>ip.
     then_p (optional (then_p (lit ''.'') (\<lambda>d. digits1))) (\<lambda>fp.
     then_p (optional (then_p (liti ''e'') (\<lambda>e.
             then_p (optional (char_in ''+-'')) (\<lambda>sg.
             then_p digits1 (\<lambda>ds. return_p (sg = Some (CHR ''-''), ds)))))) (\<lambda>ep.
     return_p (round_double (decimal_value ip fp ep)))))"

definition SignedNumber :: "number parser" where
  "SignedNumber =
     then_p (optional (char_in ''+-'')) (\<lambda>sg.
     then_p Number (\<lambda>n. return_p (if sg = Some (CHR ''-'') then js_neg n else n)))"

definition BinaryHeader :: "string parser" where
  "BinaryHeader = choice [liti ''Binary'', liti ''Binaries'', liti ''Bin'']"

definition GeneralHeader :: "string parser" where
  "GeneralHeader = choice [liti ''Generals'', liti ''General'', liti ''Gen'']"

definition name_start :: string where
  "name_start =
     ''abcdefghijklmnopqrstuvwxyzABCDEFGHIJKLMNOPQRSTUVWXYZ''
     @ [CHR ''!'', CHR 0x22, CHR ''#'', CHR ''$'', CHR ''%'', CHR ''&'', CHR 0x27, CHR ''('',
        CHR '')'', CHR ''*'', CHR ''+'', CHR '','', CHR ''.'', CHR ''/'', CHR '';'', CHR ''?'',
        CHR ''@'', CHR ''_'', CHR 0x60, CHR ''{'', CHR ''|'', CHR ''}'', CHR ''~'']"

definition name_rest :: string where
  "name_rest = name_start @ ''0123456789''"

definition VariableName :: "string parser" where
  "VariableName =
     then_p (not_p BinaryHeader) (\<lambda>u.
     then_p (not_p GeneralHeader) (\<lambda>u.
     then_p (not_p (liti ''End'')) (\<lambda>u.
     then_p (char_in name_start) (\<lambda>c.
     then_p (many (char_in name_rest)) (\<lambda>cs. return_p (c # cs))))))"

definition Term :: "lp_term parser" where
  "Term =
     choice
       [then_p Number (\<lambda>c. then_p skip (\<lambda>u. then_p VariableName (\<lambda>v.
          return_p \<lparr>coefficient = c, variable = Some v\<rparr>))),
        then_p VariableName (\<lambda>v. return_p \<lparr>coefficient = Fin 1, variable = Some v\<rparr>),
        then_p Number (\<lambda>n. return_p \<lparr>coefficient = n, variable = None\<rparr>)]"

definition TermWithSign :: "lp_term parser" where
  "TermWithSign =
     then_p (char_in ''+-'') (\<lambda>sg. then_p skip (\<lambda>u. then_p Term (\<lambda>t.
       return_p (t\<lparr>coefficient := js_mul (if sg = CHR ''+'' then Fin 1 else Fin (- 1))
                                      (js_abs (coefficient t))\<rparr>))))"

definition Expression :: "lp_term list parser" where
  "Expression =
     then_p (choice [TermWithSign, Term]) (\<lambda>first.
     then_p (many (then_p skip (\<lambda>u. then_p (choice [lit ''+'', lit ''-'']) (\<lambda>sg.
                   then_p skip (\<lambda>u. then_p (choice [TermWithSign, Term]) (\<lambda>t.
                     return_p (if sg = ''-'' then t\<lparr>coefficient := js_neg (coefficient t)\<rparr> else t)))))))
       (\<lambda>rest. return_p (first # rest)))"

definition label :: "string parser" where
  "label = then_p VariableName (\<lambda>n. then_p (lit '':'') (\<lambda>c. return_p n))"

definition Objective :: "lp_objective parser" where
  "Objective =
     then_p (choice [liti ''Maximize'', liti ''Minimize'', liti ''MAX'', liti ''MIN'']) (\<lambda>ty.
     then_p skip (\<lambda>u. then_p (optional label) (\<lambda>nm. then_p skip (\<lambda>u. then_p Expression (\<lambda>ex.
       return_p \<lparr>objective_type = (if take 3 (toLowerCase ty) = ''max'' then ''max'' else ''min''),
                 objective_label = nm, objective_expression = ex\<rparr>)))))"

definition ConstraintSense :: "string parser" where
  "ConstraintSense =
     choice
       [lit ''<='', lit ''>='', lit ''='', lit ''=<'', lit ''=>'',
        then_p (lit ''<'') (\<lambda>t.
          return_p (if t = ''<'' then ''<='' else if t = ''>'' then ''>='' else t))]"

definition Constraint :: "lp_constraint parser" where
  "Constraint =
     then_p (optional label) (\<lambda>nm. then_p skip (\<lambda>u. then_p Expression (\<lambda>ex.
     then_p skip (\<lambda>u. then_p ConstraintSense (\<lambda>sn. then_p skip (\<lambda>u.
     then_p SignedNumber (\<lambda>v. then_p skip (\<lambda>u.
       return_p \<lparr>constraint_label = nm, constraint_expression = ex, constraint_sense = sn,
                 constraint_value = v\<rparr>))))))))"

definition Constraints :: "lp_constraint list parser" where
  "Constraints =
     then_p (choice [liti ''Subject To'', liti ''ST'', liti ''S.T.'']) (\<lambda>h.
     then_p skip (\<lambda>u. some Constraint))"

definition InfinityNumber :: "bound_arg parser" where
  "InfinityNumber =
     choice
       [then_p (choice [liti ''-infinity'', liti ''+infinity'', liti ''-inf'', liti ''+inf'']) (\<lambda>t.
          return_p (if take 1 t = ''-'' then ArgMinusInfinity else ArgPlusInfinity)),
        then_p SignedNumber (\<lambda>n. return_p (ArgNumber n))]"

definition Bound :: "lp_bound parser" where
  "Bound =
     choice
       [then_p VariableName (\<lambda>v. then_p skip (\<lambda>u. then_p (liti ''free'') (\<lambda>f. then_p skip (\<lambda>u.
          return_p \<lparr>bound_variable = v, bound_lower = None, bound_upper = None, bound_free = True\<rparr>)))),
        then_p InfinityNumber (\<lambda>lo. then_p skip (\<lambda>u. then_p (lit ''<='') (\<lambda>a. then_p skip (\<lambda>u.
        then_p VariableName (\<lambda>v. then_p skip (\<lambda>u. then_p (lit ''<='') (\<lambda>b. then_p skip (\<lambda>u.
        then_p InfinityNumber (\<lambda>up. then_p skip (\<lambda>u.
          return_p \<lparr>bound_variable = v, bound_lower = Some lo, bound_upper = Some up,
                    bound_free = False\<rparr>)))))))))),
        then_p VariableName (\<lambda>v. then_p skip (\<lambda>u. then_p (lit ''<='') (\<lambda>a. then_p skip (\<lambda>u.
        then_p InfinityNumber (\<lambda>up. then_p skip (\<lambda>u.
          return_p \<lparr>bound_variable = v, bound_lower = None, bound_upper = Some up,
                    bound_free = False\<rparr>)))))),
        then_p InfinityNumber (\<lambda>lo. then_p skip (\<lambda>u. then_p (lit ''<='') (\<lambda>a. then_p skip (\<lambda>u.
        then_p VariableName (\<lambda>v. then_p skip (\<lambda>u.
          return_p \<lparr>bound_variable = v, bound_lower = Some lo, bound_upper = None,
                    bound_free = False\<rparr>))))))]"

definition Bounds :: "lp_bound list parser" where
  "Bounds = then_p (liti ''Bounds'') (\<lambda>h. then_p skip (\<lambda>u. some Bound))"

definition names :: "string list parser" where
  "names = some (then_p VariableName (\<lambda>v. then_p skip (\<lambda>u. return_p v)))"

definition General :: "string list parser" where
  "General = then_p GeneralHeader (\<lambda>h. then_p skip (\<lambda>u. names))"

definition Binary :: "string list parser" where
  "Binary = then_p BinaryHeader (\<lambda>h. then_p skip (\<lambda>u. names))"

definition or_empty :: "'a list option \<Rightarrow> 'a list" where
  "or_empty xo = (case xo of None \<Rightarrow> [] | Some xs \<Rightarrow> xs)"

definition LPFile :: "lp_file parser" where
  "LPFile =
     then_p skip (\<lambda>u. then_p Objective (\<lambda>header. then_p skip (\<lambda>u.
     then_p Constraints (\<lambda>cs. then_p skip (\<lambda>u.
     then_p (optional Bounds) (\<lambda>bs. then_p skip (\<lambda>u.
     then_p (optional General) (\<lambda>gs. then_p skip (\<lambda>u.
     then_p (optional Binary) (\<lambda>bins. then_p skip (\<lambda>u.
     then_p (liti ''End'') (\<lambda>e. then_p skip (\<lambda>u.
       return_p \<lparr>file_objective = header, file_constraints = cs, file_bounds = or_empty bs,
                 file_general = or_empty gs, file_binary = or_empty bins\<rparr>)))))))))))))"

text \<open>The generated parser accepts a text when the start rule matches all of it.\<close>

definition parse :: "string \<Rightarrow> error + lp_file" where
  "parse inp = (case LPFile inp of Some (p, []) \<Rightarrow> Inr p | _ \<Rightarrow> Inl SyntaxError)"


subsection \<open>fromLPFormat\<close>

text \<open>
  Modelled from the spec: Model.clear, which fromLPFormat calls and model.js does not
  have. The spec says that parse-from-text replaces the current contents of the model:
  the variables, the constraints, the objective and the name counter start afresh.
\<close>

definition clear :: "model \<Rightarrow> model" where
  "clear m =
     m\<lparr>variables := [], constraints := [],
       objective := \<lparr>expression = \<lparr>econst = Fin 0, eterms = []\<rparr>, sense = ''MAXIMIZE''\<rparr>,
       varCount := 0\<rparr>"

fun forEach_model :: "(model \<Rightarrow> 'a \<Rightarrow> model \<times> error option) \<Rightarrow> model \<Rightarrow> 'a list \<Rightarrow> model \<times> error option" where
  "forEach_model f m [] = (m, None)"
| "forEach_model f m (x # xs) =
     (case f m x of
        (m', Some e) \<Rightarrow> (m', Some e)
      | (m', None) \<Rightarrow> forEach_model f m' xs)"

definition addVar_only :: "model \<Rightarrow> var_options \<Rightarrow> model \<times> error option" where
  "addVar_only m opts =
     (case addVar m opts of (m', Inl e) \<Rightarrow> (m', Some e) | (m', Inr v) \<Rightarrow> (m', None))"

definition add_bound :: "model \<Rightarrow> lp_bound \<Rightarrow> model \<times> error option" where
  "add_bound m b =
     addVar_only m
       \<lparr>opt_lb = (if bound_free b then Some ArgMinusInfinity else bound_lower b),
        opt_ub = (if bound_free b then Some ArgPlusInfinity else bound_upper b),
        opt_vtype = None, opt_name = Some (bound_variable b)\<rparr>"

definition mark :: "vkind \<Rightarrow> string \<Rightarrow> model \<Rightarrow> string \<Rightarrow> model \<times> error option" where
  "mark k kname m v =
     (if variables_has m v
      then (m\<lparr>variables := map (\<lambda>p. if fst p = v then (fst p, (snd p)\<lparr>vtype := k\<rparr>) else p)
                               (variables m)\<rparr>, None)
      else addVar_only m (no_options\<lparr>opt_name := Some v, opt_vtype := Some kname\<rparr>))"

text \<open>The Set \<open>allVariables\<close>: each name once, in the order of first insertion; \<open>None\<close> is the
  null that the grammar gives a term without a variable.\<close>

fun set_of :: "'a list \<Rightarrow> 'a list" where
  "set_of [] = []"
| "set_of (x # xs) = x # filter (\<lambda>y. y \<noteq> x) (set_of xs)"

definition declare_variable :: "model \<Rightarrow> string option \<Rightarrow> model \<times> error option" where
  "declare_variable m vo =
     (case vo of
        None \<Rightarrow> addVar_only m no_options
      | Some v \<Rightarrow>
          if variables_has m v then (m, None)
          else addVar_only m (no_options\<lparr>opt_name := Some v\<rparr>))"

definition term_item :: "model \<Rightarrow> lp_term \<Rightarrow> item" where
  "term_item m t =
     Array2 (Some (coefficient t))
          (case variable t of None \<Rightarrow> None | Some v \<Rightarrow> variables_get m v)"

definition add_parsed_constraint :: "model \<Rightarrow> lp_constraint \<Rightarrow> model \<times> error option" where
  "add_parsed_constraint m c =
     (case addConstr m (map (term_item m) (constraint_expression c)) (constraint_sense c)
             (RhsNumber (constraint_value c)) of
        Inl e \<Rightarrow> (m, Some e)
      | Inr (m', c') \<Rightarrow> (m', None))"

text \<open>
  fromLPFormat changes the model in place; the result is the model as the call leaves it
  and the error, if one was raised. A text the grammar rejects raises before the model is
  touched.
\<close>

definition fromLPFormat :: "model \<Rightarrow> string \<Rightarrow> model \<times> error option" where
  "fromLPFormat m lpString =
     (case parse lpString of
        Inl e \<Rightarrow> (m, Some e)
      | Inr p \<Rightarrow>
          (case forEach_model add_bound (clear m) (file_bounds p) of
             (m1, Some e) \<Rightarrow> (m1, Some e)
           | (m1, None) \<Rightarrow>
          (case forEach_model (mark BINARY ''BINARY'') m1 (file_binary p) of
             (m2, Some e) \<Rightarrow> (m2, Some e)
           | (m2, None) \<Rightarrow>
          (case forEach_model (mark INTEGER ''INTEGER'') m2 (file_general p) of
             (m3, Some e) \<Rightarrow> (m3, Some e)
           | (m3, None) \<Rightarrow>
          (case forEach_model declare_variable m3
                  (set_of (map variable (objective_expression (file_objective p))
                           @ concat (map (\<lambda>c. map variable (constraint_expression c))
                                         (file_constraints p)))) of
             (m4, Some e) \<Rightarrow> (m4, Some e)
           | (m4, None) \<Rightarrow>
          (case setObjective m4
                  (map (term_item m4) (objective_expression (file_objective p)))
                  (if objective_type (file_objective p) = ''max''
                   then ''MAXIMIZE'' else ''MINIMIZE'') of
             Inl e \<Rightarrow> (m4, Some e)
           | Inr m5 \<Rightarrow> forEach_model add_parsed_constraint m5 (file_constraints p)))))))"

section \<open>Specification-level functions\<close>

text \<open>
  What the canonicalizer is meant to compute, said without the dictionary: the constant is
  the sum of the numeric elements; every other valid element has a key (the variable's
  name, or the two names in ascending order joined by \<open>_***_\<close>) and a coefficient; the
  terms are the keys in the order of their first occurrence, each with the sum of the
  coefficients given under it, those whose sum is zero left out. A sum is taken from left
  to right in the order of the input, with the addition of doubles: that of the constant
  starts from 0, that of a key from the first coefficient given under it.
\<close>

fun valid_item :: "item \<Rightarrow> bool" where
  "valid_item (Num x) = True"
| "valid_item (VarItem v) = True"
| "valid_item (Array2 (Some c) (Some v)) = True"
| "valid_item (Array3 (Some c) (Some x) (Some y)) = True"
| "valid_item other = False"

definition pair_key :: "var \<Rightarrow> var \<Rightarrow> string" where
  "pair_key x y = (if name x > name y then termName (name y) (name x) else termName (name x) (name y))"

fun item_key :: "item \<Rightarrow> string option" where
  "item_key (VarItem v) = Some (name v)"
| "item_key (Array2 (Some c) (Some v)) = Some (name v)"
| "item_key (Array3 (Some c) (Some x) (Some y)) = Some (pair_key x y)"
| "item_key other = None"

fun item_coeff :: "item \<Rightarrow> number" where
  "item_coeff (VarItem v) = Fin 1"
| "item_coeff (Array2 (Some c) vo) = c"
| "item_coeff (Array3 (Some c) xo yo) = c"
| "item_coeff other = Fin 0"

fun numbers_of :: "item list \<Rightarrow> number list" where
  "numbers_of [] = []"
| "numbers_of (Num x # xs) = x # numbers_of xs"
| "numbers_of (i # xs) = numbers_of xs"

definition constant_of :: "item list \<Rightarrow> number" where
  "constant_of xs = foldl js_add (Fin 0) (numbers_of xs)"

definition coeffs_of :: "string \<Rightarrow> item list \<Rightarrow> number list" where
  "coeffs_of k xs = map item_coeff (filter (\<lambda>i. item_key i = Some k) xs)"

definition coeff_sum :: "string \<Rightarrow> item list \<Rightarrow> number" where
  "coeff_sum k xs = (case coeffs_of k xs of [] \<Rightarrow> Fin 0 | c # cs \<Rightarrow> foldl js_add c cs)"

fun keys_of :: "item list \<Rightarrow> string list" where
  "keys_of [] = []"
| "keys_of (x # xs) = (case item_key x of None \<Rightarrow> keys_of xs | Some k \<Rightarrow> k # keys_of xs)"

fun first_seen :: "string list \<Rightarrow> string list" where
  "first_seen [] = []"
| "first_seen (k # ks) = k # filter (\<lambda>k'. k' \<noteq> k) (first_seen ks)"

text \<open>
  The term stored when a key is first seen. The last equation is never used: the function
  is applied to elements that have a key. An ordinary key is one the object \<open>combined\<close>
  treats as a dictionary key (\<open>own_key\<close>).
\<close>

fun fresh_term :: "model \<Rightarrow> item \<Rightarrow> pterm" where
  "fresh_term m (Array3 (Some c) (Some x) (Some y)) =
     (if name x > name y then Quad c (variables_get m (name y)) (variables_get m (name x))
      else Quad c (variables_get m (name x)) (variables_get m (name y)))"
| "fresh_term m (Array2 (Some c) (Some v)) = Lin c v"
| "fresh_term m (VarItem v) = Lin (Fin 1) v"
| "fresh_term m other =
     Lin (Fin 0) \<lparr>name = [], lb = LowerNumber (Fin 0), ub = PlusInfinity, vtype = CONTINUOUS, val = None\<rparr>"

fun with_coeff :: "number \<Rightarrow> pterm \<Rightarrow> pterm" where
  "with_coeff d (Lin c v) = Lin d v"
| "with_coeff d (Quad c x y) = Quad d x y"

definition first_with :: "string \<Rightarrow> item list \<Rightarrow> item" where
  "first_with k xs = (case find (\<lambda>i. item_key i = Some k) xs of Some i \<Rightarrow> i | None \<Rightarrow> OtherItem)"

definition merged :: "model \<Rightarrow> item list \<Rightarrow> string \<Rightarrow> pterm" where
  "merged m xs k = with_coeff (coeff_sum k xs) (fresh_term m (first_with k xs))"

definition surviving_keys :: "item list \<Rightarrow> string list" where
  "surviving_keys xs = filter (\<lambda>k. \<not> is_zero (coeff_sum k xs)) (first_seen (keys_of xs))"

definition canonical_terms :: "model \<Rightarrow> item list \<Rightarrow> pterm list" where
  "canonical_terms m xs = map (merged m xs) (surviving_keys xs)"

definition own_key :: "string \<Rightarrow> bool" where
  "own_key k = (k \<notin> set clobbered_keys \<and> k \<notin> set inherited_keys)"

definition spec_props :: "model \<Rightarrow> item list \<Rightarrow> (string \<times> pterm) list" where
  "spec_props m xs = map (\<lambda>k. (k, merged m xs k)) (first_seen (keys_of xs))"

text \<open>
  The variables of a quadratic element are looked up in the model by their names, so they
  have to be the model's own: \<open>registered\<close>. A linear element keeps the object it was
  given.
\<close>

fun quadratic_vars :: "item \<Rightarrow> var list" where
  "quadratic_vars (Array3 co (Some x) (Some y)) = [x, y]"
| "quadratic_vars (Array3 co (Some x) None) = [x]"
| "quadratic_vars (Array3 co None (Some y)) = [y]"
| "quadratic_vars other = []"

definition registered :: "model \<Rightarrow> var \<Rightarrow> bool" where
  "registered m v = (variables_get m (name v) = Some v)"

definition well_formed :: "model \<Rightarrow> item list \<Rightarrow> bool" where
  "well_formed m xs =
     (list_all valid_item xs \<and> list_all own_key (keys_of xs)
      \<and> list_all (registered m) (concat (map quadratic_vars xs)))"

definition no_index_keys :: "item list \<Rightarrow> bool" where
  "no_index_keys xs = list_all (\<lambda>k. \<not> is_array_index k) (keys_of xs)"

text \<open>
  Sums of whole numbers are exact, and so independent of the order of the summands, as
  long as they stay within \<open>2^53\<close> in absolute value. \<open>whole_within b xs\<close>: every number and
  every coefficient of \<open>xs\<close> is a whole number, and their absolute values add up to \<open>b\<close> at
  most.
\<close>

fun item_value :: "item \<Rightarrow> number" where
  "item_value (Num x) = x"
| "item_value i = item_coeff i"

fun whole :: "number \<Rightarrow> bool" where
  "whole (Fin r) = (of_int \<lfloor>r\<rfloor> = r)"
| "whole x = False"

fun finite_value :: "number \<Rightarrow> rat" where
  "finite_value (Fin r) = r"
| "finite_value x = 0"

definition magnitude :: "number \<Rightarrow> rat" where
  "magnitude x = \<bar>finite_value x\<bar>"

definition whole_within :: "rat \<Rightarrow> item list \<Rightarrow> bool" where
  "whole_within b xs =
     (list_all (\<lambda>i. whole (item_value i)) xs
      \<and> sum_list (map (\<lambda>i. magnitude (item_value i)) xs) \<le> b)"

fun rhs_items :: "rhs_arg \<Rightarrow> item list" where
  "rhs_items (RhsNumber r) = [Num r]"
| "rhs_items (RhsExpression ex) = ex"

definition valid_operator :: "string \<Rightarrow> bool" where
  "valid_operator cmp = (cmp \<in> set [''<='', ''='', ''>='', ''==''])"

text \<open>
  What addConstr is meant to store: the right side, canonical unless it is a plain number;
  the elements of the second pass, which are the canonical left side followed by the
  negated right side; and the constraint made of the canonical form of these.
\<close>

definition right_side :: "model \<Rightarrow> rhs_arg \<Rightarrow> expr" where
  "right_side m R =
     \<lparr>econst = (case R of RhsNumber n \<Rightarrow> n | RhsExpression ex \<Rightarrow> constant_of ex),
      eterms = canonical_terms m (rhs_items R)\<rparr>"

definition second_pass :: "model \<Rightarrow> item list \<Rightarrow> rhs_arg \<Rightarrow> item list" where
  "second_pass m L R =
     items_of \<lparr>econst = constant_of L, eterms = canonical_terms m L\<rparr> @ negated (right_side m R)"

definition normalized :: "model \<Rightarrow> item list \<Rightarrow> string \<Rightarrow> rhs_arg \<Rightarrow> constr" where
  "normalized m L cmp R =
     \<lparr>lhs = \<lparr>econst = Fin 0, eterms = canonical_terms m (second_pass m L R)\<rparr>,
      comparison = (if cmp = ''=='' then ''='' else cmp),
      rhs = js_neg (constant_of (second_pass m L R)), primal = None, dual = None\<rparr>"

subsection \<open>A model with two variables, used in the instances below\<close>

definition var_x :: var where
  "var_x = \<lparr>name = ''x'', lb = LowerNumber (Fin 0), ub = PlusInfinity, vtype = CONTINUOUS, val = None\<rparr>"

definition var_y :: var where
  "var_y = \<lparr>name = ''y'', lb = LowerNumber (Fin 0), ub = PlusInfinity, vtype = CONTINUOUS, val = None\<rparr>"

definition model_xy :: model where
  "model_xy = new_Model\<lparr>variables := [(''x'', var_x), (''y'', var_y)]\<rparr>"

subsection \<open>Models and engine handles used in the instances below\<close>

text \<open>
  \<open>model_obj\<close> is the model of the test testObjectiveConstantTerm: one variable, objective
  \<open>x + 2\<close> to maximize, constraint \<open>x <= 3\<close>. The three handles answer it with the optimum
  \<open>x = 3\<close>, each in its engine's shape, the value of the objective without its constant
  being 3.
\<close>

definition model_x :: model where
  "model_x = new_Model\<lparr>variables := [(''x'', var_x)]\<rparr>"

definition model_obj :: model where
  "model_obj =
     model_x\<lparr>objective := \<lparr>expression = \<lparr>econst = Fin 2, eterms = [Lin (Fin 1) var_x]\<rparr>,
                            sense = ''MAXIMIZE''\<rparr>,
             constraints := [\<lparr>lhs = \<lparr>econst = Fin 0, eterms = [Lin (Fin 1) var_x]\<rparr>,
                              comparison = ''<='', rhs = Fin 3, primal = None, dual = None\<rparr>]\<rparr>"

definition no_engine :: solver where
  "no_engine =
     \<lparr>has_branchAndCut = False, has_lastSolvedModel = False, has_GLP_OPT = False,
      has_Highs_run = False, Solve = (\<lambda>req. Inl SolverError),
      glpk_solve = (\<lambda>req opts. Inl SolverError), highs_solve = (\<lambda>req opts. Inl SolverError)\<rparr>"

definition glpk_answer :: glpk_result where
  "glpk_answer =
     \<lparr>gstatus = Fin 5, gz = Fin 3, gvars = [(''x'', Fin 3)], gdual = Some [(''cons1'', Fin 1)]\<rparr>"

definition glpk_engine :: solver where
  "glpk_engine = no_engine\<lparr>has_GLP_OPT := True, glpk_solve := (\<lambda>req opts. Inr glpk_answer)\<rparr>"

definition highs_answer :: highs_solution where
  "highs_answer =
     \<lparr>Status = ''Optimal'', ObjectiveValue = Fin 3, Columns = [(''x'', Some (Fin 3))],
      Rows = [\<lparr>Primal = Some (Fin 3), Dual = Some (Fin 1), Name = ''c1''\<rparr>]\<rparr>"

definition highs_engine :: solver where
  "highs_engine = no_engine\<lparr>has_Highs_run := True, highs_solve := (\<lambda>req opts. Inr highs_answer)\<rparr>"

definition jslp_answer :: jslp_solution where
  "jslp_answer =
     \<lparr>feasible = True, result = Some (Fin 3), bounded = True, entries = [(''x'', Fin 3)]\<rparr>"

definition jslp_engine :: solver where
  "jslp_engine =
     no_engine\<lparr>has_branchAndCut := True, has_lastSolvedModel := True,
               Solve := (\<lambda>req. Inr jslp_answer)\<rparr>"

text \<open>A model whose objective is \<open>x * x\<close>, and a model that has been solved before.\<close>

definition model_quadratic :: model where
  "model_quadratic =
     model_x\<lparr>objective := \<lparr>expression = \<lparr>econst = Fin 0,
                                          eterms = [Quad (Fin 1) (Some var_x) (Some var_x)]\<rparr>,
                            sense = ''MINIMIZE''\<rparr>\<rparr>"

definition model_solved :: model where
  "model_solved = fst (solve model_obj jslp_engine [])"

definition infeasible_answer :: highs_solution where
  "infeasible_answer = \<lparr>Status = ''Infeasible'', ObjectiveValue = Fin 0, Columns = [], Rows = []\<rparr>"

text \<open>
  \<open>model_lp\<close>: maximize \<open>x\<close> subject to \<open>x <= 3\<close>, the variable with the default bounds;
  \<open>model_bounded\<close>: the same with \<open>0 <= x <= 4\<close>.
\<close>

definition model_lp :: model where
  "model_lp =
     model_x\<lparr>objective := \<lparr>expression = \<lparr>econst = Fin 0, eterms = [Lin (Fin 1) var_x]\<rparr>,
                            sense = ''MAXIMIZE''\<rparr>,
             constraints := [\<lparr>lhs = \<lparr>econst = Fin 0, eterms = [Lin (Fin 1) var_x]\<rparr>,
                              comparison = ''<='', rhs = Fin 3, primal = None, dual = None\<rparr>]\<rparr>"

definition var_x4 :: var where
  "var_x4 = var_x\<lparr>ub := UpperNumber (Fin 4)\<rparr>"

definition model_bounded :: model where
  "model_bounded =
     new_Model\<lparr>variables := [(''x'', var_x4)],
               objective := \<lparr>expression = \<lparr>econst = Fin 0, eterms = [Lin (Fin 1) var_x4]\<rparr>,
                              sense = ''MAXIMIZE''\<rparr>,
               constraints := [\<lparr>lhs = \<lparr>econst = Fin 0, eterms = [Lin (Fin 1) var_x4]\<rparr>,
                                comparison = ''<='', rhs = Fin 3, primal = None, dual = None\<rparr>]\<rparr>"

definition text_lp :: string where
  "text_lp = ''Maximize\<newline>obj: 1 x\<newline>Subject To\<newline> c1: 1 x <= 3\<newline>Bounds\<newline>End\<newline>''"

definition text_bounded :: string where
  "text_bounded =
     ''Maximize\<newline>obj: 1 x\<newline>Subject To\<newline> c1: 1 x <= 3\<newline>Bounds\<newline> 0 <= x <= 4\<newline>End\<newline>''"

text \<open>Variables whose names are array indices, and one named like an inherited property.\<close>

definition var_9 :: var where
  "var_9 = var_x\<lparr>name := ''9''\<rparr>"

definition var_10 :: var where
  "var_10 = var_x\<lparr>name := ''10''\<rparr>"

definition var_toString :: var where
  "var_toString = var_x\<lparr>name := ''toString''\<rparr>"

definition model_xyt :: model where
  "model_xyt = new_Model\<lparr>variables := [(''x'', var_x), (''y'', var_y), (''toString'', var_toString)]\<rparr>"

definition equality_row :: constr where
  "equality_row =
     \<lparr>lhs = \<lparr>econst = Fin 0, eterms = [Lin (Fin 1) var_x]\<rparr>, comparison = ''='', rhs = Fin 5,
      primal = None, dual = None\<rparr>"

section \<open>Lemmas\<close>

subsection \<open>Whole numbers are rounded to themselves\<close>

lemma round_even_of_int: "round_even (of_int n) = n"
  by (simp add: round_even_def)

lemma ilog2_of_int: "0 < z \<Longrightarrow> ilog2 (of_int z) = bitlen z - 1"
  by (simp add: ilog2_def)

lemma round_at_whole:
  assumes "0 < z" and "z \<le> 2 ^ 53"
  shows "round_at (bitlen z - 1) (of_int z) = Fin (of_int z)"
proof -
  define e where "e = bitlen z - 1"
  have b: "2 ^ nat e \<le> z"
    using bitlen_bounds[OF assms(1)] by (simp add: e_def)
  have e0: "0 \<le> e"
    using assms(1) bitlen_nonneg[of z] bitlen_eq_zero_iff[of z] unfolding e_def by linarith
  have h: "(2::int) ^ nat e \<le> 2 ^ 53"
    using b assms(2) by linarith
  have "nat e \<le> 53"
    by (rule power_le_imp_le_exp[of "2::int", OF _ h]) simp
  then have e53: "e \<le> 53" by linarith
  have "round_at e (of_int z) = Fin (of_int z)"
  proof (cases "e = 53")
    case True
    then have "(2::int) ^ 53 \<le> z" using b by simp
    then have z: "z = 2 ^ 53" using assms(2) by linarith
    have p: "pow2 (e - 52) = 2"
      using True by (simp add: pow2_def)
    have q: "(of_int z :: rat) / pow2 (e - 52) = of_int (2 ^ 52)"
      unfolding p by (simp add: z)
    have restore: "(of_int (2 ^ 52) :: rat) * pow2 (e - 52) = of_int z"
      unfolding p by (simp add: z)
    show ?thesis
      unfolding round_at_def q round_even_of_int restore
      using True by simp
  next
    case False
    then have le: "e \<le> 52" using e53 by linarith
    define d where "d = nat (52 - e)"
    have p: "pow2 (e - 52) = 1 / 2 ^ d"
    proof (cases "e = 52")
      case True
      then show ?thesis by (simp add: pow2_def d_def)
    next
      case False
      then have "e - 52 < 0" using le by linarith
      then show ?thesis by (simp add: pow2_def d_def)
    qed
    have q: "(of_int z :: rat) / pow2 (e - 52) = of_int (z * 2 ^ d)"
      unfolding p by simp
    have nz: "z * 2 ^ d \<noteq> 0" using assms(1) by simp
    have restore: "(of_int (z * 2 ^ d) :: rat) * pow2 (e - 52) = of_int z"
      unfolding p by simp
    show ?thesis
      unfolding round_at_def q round_even_of_int restore
      using nz le by simp
  qed
  then show ?thesis by (simp add: e_def)
qed

lemma round_double_whole:
  assumes "\<bar>z\<bar> \<le> 2 ^ 53"
  shows "round_double (of_int z) = Fin (of_int z)"
proof -
  consider "z = 0" | "0 < z" | "z < 0" by linarith
  then show ?thesis
  proof cases
    case 1
    then show ?thesis by (simp add: round_double_def)
  next
    case 2
    then have "z \<le> 2 ^ 53" using assms by simp
    then have "round_at (bitlen z - 1) (of_int z) = Fin (of_int z)"
      using 2 by (intro round_at_whole)
    moreover have "max (bitlen z - 1) (- 1022) = bitlen z - 1"
      using 2 bitlen_nonneg[of z] bitlen_eq_zero_iff[of z] by linarith
    ultimately show ?thesis
      using 2 by (simp add: round_double_def ilog2_of_int)
  next
    case 3
    then have p: "0 < - z" "- z \<le> 2 ^ 53" using assms by simp_all
    have r: "round_at (bitlen (- z) - 1) (of_int (- z)) = Fin (of_int (- z))"
      using p by (intro round_at_whole)
    have m: "max (bitlen (- z) - 1) (- 1022) = bitlen (- z) - 1"
      using p(1) bitlen_nonneg[of "- z"] bitlen_eq_zero_iff[of "- z"] by linarith
    have i: "ilog2 (- of_int z) = bitlen (- z) - 1"
      using ilog2_of_int[OF p(1)] by simp
    have "round_double (of_int z) = js_neg (round_at (bitlen (- z) - 1) (- of_int z))"
      using 3 by (simp add: round_double_def i m)
    also have "\<dots> = js_neg (Fin (of_int (- z)))"
      using r by simp
    also have "\<dots> = Fin (of_int z)"
      using 3 by simp
    finally show ?thesis .
  qed
qed

subsection \<open>parseExpression computes the canonical form\<close>

lemma for_items_append:
  "for_items m cmb (xs @ ys) =
     (case for_items m cmb xs of Inl e \<Rightarrow> Inl e | Inr cmb' \<Rightarrow> for_items m cmb' ys)"
  by (induction xs arbitrary: cmb) (auto split: sum.splits)

lemma step_term:
  assumes "valid_item x" "item_key x = Some k"
  shows "step m cmb x = add_term k (item_coeff x) (fresh_term m x) cmb"
  using assms
  by (cases x rule: valid_item.cases) (auto simp: pair_key_def Let_def)

lemma set_first_seen [simp]: "set (first_seen ks) = set ks"
  by (induction ks) auto

lemma distinct_first_seen [simp]: "distinct (first_seen ks)"
  by (induction ks) auto

lemma first_seen_snoc:
  "first_seen (ks @ [k]) = (if k \<in> set ks then first_seen ks else first_seen ks @ [k])"
  by (induction ks) auto

lemma keys_of_append: "keys_of (xs @ ys) = keys_of xs @ keys_of ys"
  by (induction xs) (auto split: option.splits)

lemma numbers_of_append: "numbers_of (xs @ ys) = numbers_of xs @ numbers_of ys"
  by (induction xs rule: numbers_of.induct) simp_all

lemma constant_of_snoc_num: "constant_of (xs @ [Num a]) = js_add (constant_of xs) a"
  by (simp add: constant_of_def numbers_of_append)

lemma constant_of_snoc_term: "item_key x = Some k \<Longrightarrow> constant_of (xs @ [x]) = constant_of xs"
  by (cases x) (simp_all add: constant_of_def numbers_of_append)

lemma in_keys_of: "k \<in> set (keys_of xs) \<longleftrightarrow> (\<exists>i \<in> set xs. item_key i = Some k)"
  by (induction xs) (auto split: option.splits)

lemma coeffs_of_empty: "coeffs_of k xs = [] \<longleftrightarrow> k \<notin> set (keys_of xs)"
  by (auto simp: coeffs_of_def in_keys_of filter_empty_conv)

lemma coeff_sum_absent: "k \<notin> set (keys_of xs) \<Longrightarrow> coeff_sum k xs = Fin 0"
  using coeffs_of_empty[of k xs] by (simp add: coeff_sum_def)

lemma coeff_sum_snoc_other:
  "item_key x \<noteq> Some k \<Longrightarrow> coeff_sum k (xs @ [x]) = coeff_sum k xs"
  by (simp add: coeff_sum_def coeffs_of_def)

lemma coeff_sum_snoc_new:
  "item_key x = Some k \<Longrightarrow> k \<notin> set (keys_of xs) \<Longrightarrow> coeff_sum k (xs @ [x]) = item_coeff x"
  using coeffs_of_empty[of k xs] by (simp add: coeff_sum_def coeffs_of_def)

lemma coeff_sum_snoc_seen:
  assumes "item_key x = Some k" and "k \<in> set (keys_of xs)"
  shows "coeff_sum k (xs @ [x]) = js_add (coeff_sum k xs) (item_coeff x)"
proof -
  obtain c cs where c: "coeffs_of k xs = c # cs"
    using assms(2) coeffs_of_empty[of k xs] by (cases "coeffs_of k xs") auto
  have "coeffs_of k (xs @ [x]) = c # (cs @ [item_coeff x])"
    using c assms(1) by (simp add: coeffs_of_def)
  then show ?thesis
    using c by (simp add: coeff_sum_def)
qed

lemma first_with_snoc:
  "k \<in> set (keys_of xs) \<Longrightarrow> first_with k (xs @ [x]) = first_with k xs"
  by (induction xs) (auto simp: first_with_def split: option.splits)

lemma first_with_new:
  "k \<notin> set (keys_of xs) \<Longrightarrow> item_key x = Some k \<Longrightarrow> first_with k (xs @ [x]) = x"
  by (induction xs) (auto simp: first_with_def split: option.splits)

lemma map_of_tab: "map_of (map (\<lambda>k. (k, f k)) ks) k = (if k \<in> set ks then Some (f k) else None)"
  by (induction ks) auto

lemma assign_tab:
  "distinct ks \<Longrightarrow> assign k g (map (\<lambda>k'. (k', f k')) ks) = map (\<lambda>k'. (k', if k' = k then g (f k') else f k')) ks"
  by (induction ks) auto

lemma bump_with_coeff: "bump d (with_coeff c t) = with_coeff (js_add c d) t"
  by (cases t) auto

lemma with_coeff_fresh:
  "valid_item x \<Longrightarrow> item_key x = Some k \<Longrightarrow> with_coeff (item_coeff x) (fresh_term m x) = fresh_term m x"
  by (cases x rule: valid_item.cases) auto

lemma merged_snoc_other:
  assumes "k' \<in> set (keys_of xs)" and "item_key x \<noteq> Some k'"
  shows "merged m (xs @ [x]) k' = merged m xs k'"
  using assms by (simp add: merged_def coeff_sum_snoc_other first_with_snoc)

lemma merged_snoc_seen:
  assumes "k \<in> set (keys_of xs)" and "item_key x = Some k"
  shows "merged m (xs @ [x]) k = bump (item_coeff x) (merged m xs k)"
  using assms by (simp add: merged_def coeff_sum_snoc_seen first_with_snoc bump_with_coeff)

lemma merged_snoc_new:
  assumes "k \<notin> set (keys_of xs)" and "item_key x = Some k" and "valid_item x"
  shows "merged m (xs @ [x]) k = fresh_term m x"
  using assms by (simp add: merged_def coeff_sum_snoc_new first_with_new with_coeff_fresh)

lemma spec_props_snoc_number:
  "item_key x = None \<Longrightarrow> spec_props m (xs @ [x]) = spec_props m xs"
  by (auto simp: spec_props_def keys_of_append merged_snoc_other)

lemma spec_props_snoc_seen:
  assumes "k \<in> set (keys_of xs)" and "item_key x = Some k"
  shows "spec_props m (xs @ [x]) = assign k (bump (item_coeff x)) (spec_props m xs)"
proof -
  have "map (\<lambda>k'. (k', merged m (xs @ [x]) k')) (first_seen (keys_of xs))
      = map (\<lambda>k'. (k', if k' = k then bump (item_coeff x) (merged m xs k') else merged m xs k'))
          (first_seen (keys_of xs))"
    using assms by (auto simp: merged_snoc_seen merged_snoc_other)
  then show ?thesis
    using assms by (simp add: spec_props_def keys_of_append first_seen_snoc assign_tab)
qed

lemma spec_props_snoc_new:
  assumes "k \<notin> set (keys_of xs)" and "item_key x = Some k" and "valid_item x"
  shows "spec_props m (xs @ [x]) = spec_props m xs @ [(k, fresh_term m x)]"
proof -
  have "merged m (xs @ [x]) k' = merged m xs k'" if "k' \<in> set (keys_of xs)" for k'
  proof -
    have "k' \<noteq> k" using that assms(1) by auto
    then show ?thesis using that assms(2) by (simp add: merged_snoc_other)
  qed
  then have "map (\<lambda>k'. (k', merged m (xs @ [x]) k')) (first_seen (keys_of xs))
      = map (\<lambda>k'. (k', merged m xs k')) (first_seen (keys_of xs))"
    by simp
  then show ?thesis
    using assms by (simp add: spec_props_def keys_of_append first_seen_snoc merged_snoc_new)
qed

lemma for_items_spec:
  assumes "list_all valid_item xs" and "list_all own_key (keys_of xs)"
  shows "for_items m \<lparr>const_acc = Fin 0, props = []\<rparr> xs =
           Inr \<lparr>const_acc = constant_of xs, props = spec_props m xs\<rparr>"
  using assms
proof (induction xs rule: rev_induct)
  case Nil
  show ?case by (simp add: constant_of_def spec_props_def)
next
  case (snoc x xs)
  then have IH: "for_items m \<lparr>const_acc = Fin 0, props = []\<rparr> xs =
           Inr \<lparr>const_acc = constant_of xs, props = spec_props m xs\<rparr>"
    and vx: "valid_item x" and own: "list_all own_key (keys_of (xs @ [x]))"
    by (simp_all add: keys_of_append)
  show ?case
  proof (cases "item_key x")
    case None
    then obtain a where a: "x = Num a"
      using vx by (cases x rule: valid_item.cases) auto
    show ?thesis
      using IH None
      by (simp add: for_items_append a constant_of_snoc_num spec_props_snoc_number)
  next
    case (Some k)
    have ok: "k \<notin> set clobbered_keys" "k \<notin> set inherited_keys"
      using own Some by (simp_all add: keys_of_append own_key_def)
    show ?thesis
    proof (cases "k \<in> set (keys_of xs)")
      case True
      then show ?thesis
        using Some vx IH ok
        by (simp add: for_items_append step_term add_term_def constant_of_snoc_term
            spec_props_snoc_seen)
           (simp add: spec_props_def map_of_tab)
    next
      case False
      then show ?thesis
        using Some vx IH ok
        by (simp add: for_items_append step_term add_term_def constant_of_snoc_term
            spec_props_snoc_new)
           (simp add: spec_props_def map_of_tab)
    qed
  qed
qed

lemma parseExpression_own:
  assumes "list_all valid_item xs" and "list_all own_key (keys_of xs)"
  shows "parseExpression m xs =
           Inr \<lparr>econst = constant_of xs,
                eterms = filter (\<lambda>t. \<not> is_zero (coeff t)) (map snd (for_in (spec_props m xs)))\<rparr>"
  by (simp add: parseExpression_def for_items_spec[OF assms])

lemma for_in_plain:
  assumes "list_all (\<lambda>k. \<not> is_array_index k) (map fst ps)"
  shows "for_in ps = ps"
proof -
  have a: "filter (\<lambda>p. is_array_index (fst p)) ps = []"
    using assms by (induction ps) auto
  have b: "filter (\<lambda>p. \<not> is_array_index (fst p)) ps = ps"
    using assms by (induction ps) auto
  show ?thesis by (simp add: for_in_def a b)
qed

lemma coeff_with_coeff [simp]: "coeff (with_coeff d t) = d"
  by (cases t) auto

lemma coeff_merged [simp]: "coeff (merged m xs k) = coeff_sum k xs"
  by (simp add: merged_def)

lemma list_all_first_seen: "list_all P (first_seen ks) = list_all P ks"
  by (simp add: list_all_iff)

lemma parseExpression_plain:
  assumes "list_all valid_item xs" and "list_all own_key (keys_of xs)" and "no_index_keys xs"
  shows "parseExpression m xs =
           Inr \<lparr>econst = constant_of xs, eterms = canonical_terms m xs\<rparr>"
proof -
  have "list_all (\<lambda>k. \<not> is_array_index k) (map fst (spec_props m xs))"
    using assms(3) by (simp add: spec_props_def no_index_keys_def comp_def list_all_first_seen)
  then have "for_in (spec_props m xs) = spec_props m xs"
    by (rule for_in_plain)
  then show ?thesis
    by (simp add: parseExpression_own[OF assms(1,2)] canonical_terms_def surviving_keys_def
        spec_props_def filter_map comp_def)
qed

lemma first_with_in:
  "k \<in> set (keys_of xs) \<Longrightarrow> first_with k xs \<in> set xs \<and> item_key (first_with k xs) = Some k"
  by (induction xs) (auto simp: first_with_def split: option.splits)

lemma stored_item:
  assumes "valid_item i" and "item_key i = Some k" and "list_all (registered m) (quadratic_vars i)"
  shows "item_key (item_of (with_coeff d (fresh_term m i))) = Some k
         \<and> valid_item (item_of (with_coeff d (fresh_term m i)))
         \<and> list_all (registered m) (quadratic_vars (item_of (with_coeff d (fresh_term m i))))"
proof (cases i rule: valid_item.cases)
  case (4 c x y)
  have g: "variables_get m (name x) = Some x" "variables_get m (name y) = Some y"
    using assms(3) 4 by (simp_all add: registered_def)
  have r: "registered m x" "registered m y"
    using g by (simp_all add: registered_def)
  show ?thesis
  proof (cases "name x > name y")
    case True
    then have "\<not> name y > name x" by simp
    then show ?thesis
      using True assms(2) 4 g r by (simp add: pair_key_def)
  next
    case False
    then show ?thesis
      using assms(2) 4 g r by (simp add: pair_key_def)
  qed
qed (use assms in \<open>simp_all add: registered_def\<close>)

lemma merged_item:
  assumes "well_formed m xs" and "k \<in> set (keys_of xs)"
  shows "item_key (item_of (merged m xs k)) = Some k
         \<and> valid_item (item_of (merged m xs k))
         \<and> list_all (registered m) (quadratic_vars (item_of (merged m xs k)))"
proof -
  have i: "first_with k xs \<in> set xs" "item_key (first_with k xs) = Some k"
    using first_with_in[OF assms(2)] by simp_all
  have "valid_item (first_with k xs)" "list_all (registered m) (quadratic_vars (first_with k xs))"
    using assms(1) i(1) by (auto simp: well_formed_def list_all_iff)
  then show ?thesis
    unfolding merged_def using i(2) by (intro stored_item) auto
qed

lemma keys_of_tab:
  "\<forall>k \<in> set ks. item_key (g k) = Some k \<Longrightarrow> keys_of (map g ks) = ks"
  by (induction ks) simp_all

lemma set_surviving_keys: "set (surviving_keys xs) \<subseteq> set (keys_of xs)"
  by (auto simp: surviving_keys_def)

lemma distinct_surviving_keys: "distinct (surviving_keys xs)"
  by (simp add: surviving_keys_def)

lemma keys_of_canonical_terms:
  assumes "well_formed m xs"
  shows "keys_of (map item_of (canonical_terms m xs)) = surviving_keys xs"
proof -
  have "\<forall>k \<in> set (surviving_keys xs). item_key (item_of (merged m xs k)) = Some k"
    using merged_item[OF assms] set_surviving_keys by blast
  then have "keys_of (map (\<lambda>k. item_of (merged m xs k)) (surviving_keys xs)) = surviving_keys xs"
    by (rule keys_of_tab)
  then show ?thesis
    by (simp add: canonical_terms_def comp_def)
qed

lemma coeffs_of_canonical_terms:
  "map coeff (canonical_terms m xs) = map (\<lambda>k. coeff_sum k xs) (surviving_keys xs)"
  by (simp add: canonical_terms_def comp_def)

lemma item_coeff_item_of [simp]: "item_coeff (item_of t) = coeff t"
  by (cases t) auto

lemma coeffs_of_tab:
  assumes "distinct ks" and "\<forall>k' \<in> set ks. item_key (g k') = Some k'"
  shows "coeffs_of k (map g ks) = (if k \<in> set ks then [item_coeff (g k)] else [])"
  using assms by (induction ks) (auto simp: coeffs_of_def)

lemma coeff_sum_Num [simp]: "coeff_sum k (Num c # xs) = coeff_sum k xs"
  by (simp add: coeff_sum_def coeffs_of_def)

lemma coeff_sum_tab:
  assumes "distinct ks" and "\<forall>k' \<in> set ks. item_key (g k') = Some k'"
  shows "coeff_sum k (map g ks) = (if k \<in> set ks then item_coeff (g k) else Fin 0)"
  by (simp add: coeff_sum_def coeffs_of_tab[OF assms])

text \<open>The coefficient that a canonical expression carries under a key.\<close>

lemma coeff_sum_canonical:
  assumes "well_formed m xs"
  shows "coeff_sum k (items_of \<lparr>econst = c, eterms = canonical_terms m xs\<rparr>)
           = (if k \<in> set (surviving_keys xs) then coeff_sum k xs else Fin 0)"
proof -
  have g: "\<forall>k' \<in> set (surviving_keys xs). item_key (item_of (merged m xs k')) = Some k'"
    using merged_item[OF assms] set_surviving_keys by blast
  have "coeff_sum k (map (\<lambda>k'. item_of (merged m xs k')) (surviving_keys xs))
          = (if k \<in> set (surviving_keys xs) then item_coeff (item_of (merged m xs k)) else Fin 0)"
    by (rule coeff_sum_tab[OF distinct_surviving_keys g])
  then show ?thesis
    by (simp add: items_of_def canonical_terms_def comp_def)
qed

subsection \<open>Sums of whole numbers\<close>

lemma whole_iff: "whole x \<longleftrightarrow> (\<exists>z. x = Fin (of_int z))"
proof (cases x)
  case (Fin r)
  have "of_int \<lfloor>r\<rfloor> = r \<longleftrightarrow> (\<exists>z. r = of_int z)"
    by (metis floor_of_int)
  then show ?thesis using Fin by simp
qed simp_all

lemma js_add_whole:
  assumes "whole a" and "whole b" and "magnitude a + magnitude b \<le> 2 ^ 53"
  shows "js_add a b = Fin (finite_value a + finite_value b) \<and> whole (js_add a b)
         \<and> magnitude (js_add a b) \<le> magnitude a + magnitude b"
proof -
  obtain y z where a: "a = Fin (of_int y)" and b: "b = Fin (of_int z)"
    using assms(1,2) by (auto simp: whole_iff)
  have "\<bar>(of_int y :: rat) + of_int z\<bar> \<le> \<bar>of_int y\<bar> + \<bar>of_int z\<bar>"
    by (rule abs_triangle_ineq)
  then have "(of_int \<bar>y + z\<bar> :: rat) \<le> of_int (2 ^ 53)"
    using assms(3) by (simp add: a b magnitude_def)
  then have "\<bar>y + z\<bar> \<le> 2 ^ 53"
    by (simp only: of_int_le_iff)
  then have "round_double (of_int (y + z)) = Fin (of_int (y + z))"
    by (rule round_double_whole)
  then have s: "js_add a b = Fin (of_int (y + z))"
    by (simp add: a b)
  show ?thesis
    unfolding s using abs_triangle_ineq[of "of_int y :: rat" "of_int z"]
    by (simp add: a b magnitude_def)
qed

lemma foldl_whole:
  assumes "whole a" and "list_all whole cs"
    and "magnitude a + sum_list (map magnitude cs) \<le> 2 ^ 53"
  shows "foldl js_add a cs = Fin (finite_value a + sum_list (map finite_value cs))"
  using assms
proof (induction cs arbitrary: a)
  case Nil
  then show ?case by (auto simp: whole_iff)
next
  case (Cons c cs)
  have nn: "0 \<le> sum_list (map magnitude cs)"
    by (rule sum_list_nonneg) (auto simp: magnitude_def)
  have "magnitude a + magnitude c \<le> 2 ^ 53"
    using Cons.prems(3) nn by simp
  then have j: "js_add a c = Fin (finite_value a + finite_value c) \<and> whole (js_add a c)
         \<and> magnitude (js_add a c) \<le> magnitude a + magnitude c"
    using Cons.prems(1,2) by (intro js_add_whole) simp_all
  have s: "js_add a c = Fin (finite_value a + finite_value c)" "whole (js_add a c)"
      "magnitude (js_add a c) \<le> magnitude a + magnitude c"
    using j by blast+
  have "foldl js_add (js_add a c) cs
          = Fin (finite_value (js_add a c) + sum_list (map finite_value cs))"
    using Cons.prems s(2,3) by (intro Cons.IH) simp_all
  then show ?case
    by (simp add: s(1))
qed

lemma sum_list_filter_le:
  assumes "\<And>x. 0 \<le> f x"
  shows "sum_list (map f (filter P xs)) \<le> (sum_list (map f xs) :: rat)"
proof (induction xs)
  case Nil
  show ?case by simp
next
  case (Cons x xs)
  then show ?case using assms[of x] by auto
qed

lemma item_value_keyed: "item_key i = Some k \<Longrightarrow> item_value i = item_coeff i"
  by (cases i) simp_all

lemma coeff_sum_whole:
  assumes "whole_within (2 ^ 53) xs"
  shows "coeff_sum k xs
           = Fin (sum_list (map (\<lambda>i. finite_value (item_coeff i)) (filter (\<lambda>i. item_key i = Some k) xs)))"
proof -
  let ?is = "filter (\<lambda>i. item_key i = Some k) xs"
  have w: "list_all whole (coeffs_of k xs)"
    using assms by (auto simp: whole_within_def coeffs_of_def list_all_iff item_value_keyed)
  have "sum_list (map magnitude (coeffs_of k xs)) = sum_list (map (\<lambda>i. magnitude (item_value i)) ?is)"
    unfolding coeffs_of_def map_map comp_def
    by (rule arg_cong[where f = sum_list], rule map_cong) (auto simp: item_value_keyed)
  also have "\<dots> \<le> sum_list (map (\<lambda>i. magnitude (item_value i)) xs)"
    by (rule sum_list_filter_le) (simp add: magnitude_def)
  also have "\<dots> \<le> 2 ^ 53"
    using assms by (simp add: whole_within_def)
  finally have b: "sum_list (map magnitude (coeffs_of k xs)) \<le> 2 ^ 53" .
  have v: "sum_list (map finite_value (coeffs_of k xs))
             = sum_list (map (\<lambda>i. finite_value (item_coeff i)) ?is)"
    by (simp add: coeffs_of_def comp_def)
  show ?thesis
  proof (cases "coeffs_of k xs")
    case Nil
    then show ?thesis using v by (simp add: coeff_sum_def)
  next
    case (Cons c cs)
    have "foldl js_add c cs = Fin (finite_value c + sum_list (map finite_value cs))"
      using w b Cons by (intro foldl_whole) simp_all
    then show ?thesis
      using v Cons by (simp add: coeff_sum_def)
  qed
qed

lemma numbers_of_whole:
  "list_all (\<lambda>i. whole (item_value i)) xs \<Longrightarrow> list_all whole (numbers_of xs)"
  by (induction xs rule: numbers_of.induct) simp_all

lemma numbers_of_magnitude:
  "sum_list (map magnitude (numbers_of xs)) \<le> sum_list (map (\<lambda>i. magnitude (item_value i)) xs)"
  by (induction xs rule: numbers_of.induct) (simp_all add: magnitude_def)

lemma numbers_of_value:
  "sum_list (map finite_value (numbers_of xs))
     = sum_list (map (\<lambda>i. case i of Num x \<Rightarrow> finite_value x | _ \<Rightarrow> 0) xs)"
  by (induction xs rule: numbers_of.induct) simp_all

lemma constant_of_whole:
  assumes "whole_within (2 ^ 53) xs"
  shows "constant_of xs = Fin (sum_list (map (\<lambda>i. case i of Num x \<Rightarrow> finite_value x | _ \<Rightarrow> 0) xs))"
proof -
  have w: "list_all whole (numbers_of xs)"
    using assms by (intro numbers_of_whole) (simp add: whole_within_def)
  have "sum_list (map magnitude (numbers_of xs)) \<le> 2 ^ 53"
    using numbers_of_magnitude[of xs] assms by (simp add: whole_within_def)
  then have "foldl js_add (Fin 0) (numbers_of xs)
      = Fin (finite_value (Fin 0) + sum_list (map finite_value (numbers_of xs)))"
    using w by (intro foldl_whole) (simp_all add: magnitude_def)
  then show ?thesis
    by (simp add: constant_of_def numbers_of_value)
qed

lemma sum_list_map_mset:
  "mset ys = mset xs \<Longrightarrow> sum_list (map f ys) = (sum_list (map f xs) :: rat)"
  by (metis mset_map sum_mset_sum_list)

lemma sum_list_filter_mset:
  "mset ys = mset xs \<Longrightarrow> sum_list (map f (filter P ys)) = (sum_list (map f (filter P xs)) :: rat)"
  by (metis mset_filter mset_map sum_mset_sum_list)

lemma whole_within_mset:
  assumes "mset ys = mset xs" and "whole_within b xs"
  shows "whole_within b ys"
proof -
  have "set ys = set xs" using assms(1) by (rule mset_eq_setD)
  then show ?thesis
    using assms(2) sum_list_map_mset[OF assms(1), of "\<lambda>i. magnitude (item_value i)"]
    by (simp add: whole_within_def list_all_iff)
qed

lemma well_formed_mset:
  assumes "mset ys = mset xs" and "well_formed m xs"
  shows "well_formed m ys"
proof -
  have s: "set ys = set xs" using assms(1) by (rule mset_eq_setD)
  then have "set (keys_of ys) = set (keys_of xs)"
    by (auto simp: in_keys_of)
  then show ?thesis
    using assms(2) s by (simp add: well_formed_def list_all_iff)
qed

lemma no_index_keys_mset:
  assumes "mset ys = mset xs" and "no_index_keys xs"
  shows "no_index_keys ys"
proof -
  have s: "set ys = set xs" using assms(1) by (rule mset_eq_setD)
  then have "set (keys_of ys) = set (keys_of xs)"
    by (auto simp: in_keys_of)
  then show ?thesis
    using assms(2) by (simp add: no_index_keys_def list_all_iff)
qed

text \<open>Within the whole numbers a reordering changes neither the constant nor a coefficient.\<close>

lemma reordered_whole:
  assumes wf: "well_formed m xs" and ni: "no_index_keys xs" and wh: "whole_within (2 ^ 53) xs"
    and eq: "mset ys = mset xs"
  shows "\<exists>e. parseExpression m ys = Inr e \<and> econst e = constant_of xs
             \<and> (\<forall>k. coeff_sum k (items_of e) = coeff_sum k xs)"
proof -
  have wf': "well_formed m ys" by (rule well_formed_mset[OF eq wf])
  have ni': "no_index_keys ys" by (rule no_index_keys_mset[OF eq ni])
  have wh': "whole_within (2 ^ 53) ys" by (rule whole_within_mset[OF eq wh])
  let ?e = "\<lparr>econst = constant_of ys, eterms = canonical_terms m ys\<rparr>"
  have p: "parseExpression m ys = Inr ?e"
    using wf' ni' by (intro parseExpression_plain) (simp_all add: well_formed_def)
  have c: "constant_of ys = constant_of xs"
    using constant_of_whole[OF wh] constant_of_whole[OF wh']
      sum_list_map_mset[OF eq, of "\<lambda>i. case i of Num x \<Rightarrow> finite_value x | _ \<Rightarrow> 0"]
    by simp
  have s: "coeff_sum k ys = coeff_sum k xs" for k
    using coeff_sum_whole[OF wh, of k] coeff_sum_whole[OF wh', of k]
      sum_list_filter_mset[OF eq, of "\<lambda>i. finite_value (item_coeff i)" "\<lambda>i. item_key i = Some k"]
    by simp
  have t: "coeff_sum k (items_of ?e) = coeff_sum k ys" for k
  proof (cases "k \<in> set (surviving_keys ys)")
    case True
    then show ?thesis by (simp add: coeff_sum_canonical[OF wf'])
  next
    case False
    have "coeff_sum k ys = Fin 0"
    proof (cases "k \<in> set (keys_of ys)")
      case True
      then have "is_zero (coeff_sum k ys)"
        using False by (simp add: surviving_keys_def)
      then show ?thesis
        using coeff_sum_whole[OF wh', of k] by (simp add: is_zero_def)
    next
      case False
      then show ?thesis by (rule coeff_sum_absent)
    qed
    then show ?thesis using False by (simp add: coeff_sum_canonical[OF wf'])
  qed
  show ?thesis
    using p c s t by (intro exI[of _ ?e]) simp
qed

lemma round_double_5: "round_double 5 = Fin 5"
  by code_simp

lemma merge_same_variable:
  "parseExpression m [Array2 (Some (Fin 2)) (Some x), Array2 (Some (Fin 3)) (Some x)]
     = parseExpression m [Array2 (Some (Fin 5)) (Some x)]"
  by (simp add: parseExpression_def add_term_def round_double_5)

subsection \<open>The second pass of addConstr\<close>

lemma coeff_negate [simp]: "coeff (negate t) = js_neg (coeff t)"
  by (cases t) auto

lemma item_key_negate [simp]: "item_key (item_of (negate t)) = item_key (item_of t)"
proof (cases t)
  case (Lin c v)
  then show ?thesis by simp
next
  case (Quad c xo yo)
  then show ?thesis by (cases xo; cases yo) simp_all
qed

lemma valid_item_negate [simp]: "valid_item (item_of (negate t)) = valid_item (item_of t)"
proof (cases t)
  case (Lin c v)
  then show ?thesis by simp
next
  case (Quad c xo yo)
  then show ?thesis by (cases xo; cases yo) simp_all
qed

lemma quadratic_vars_negate [simp]: "quadratic_vars (item_of (negate t)) = quadratic_vars (item_of t)"
proof (cases t)
  case (Lin c v)
  then show ?thesis by simp
next
  case (Quad c xo yo)
  then show ?thesis by (cases xo; cases yo) simp_all
qed

lemma coeffs_of_append: "coeffs_of k (xs @ ys) = coeffs_of k xs @ coeffs_of k ys"
  by (simp add: coeffs_of_def)

lemma coeffs_of_Num [simp]: "coeffs_of k (Num c # xs) = coeffs_of k xs"
  by (simp add: coeffs_of_def)

lemma keys_of_second_pass:
  assumes "well_formed m L" and "well_formed m (rhs_items R)"
  shows "keys_of (second_pass m L R) = surviving_keys L @ surviving_keys (rhs_items R)"
proof -
  have l: "\<forall>k \<in> set (surviving_keys L). item_key (item_of (merged m L k)) = Some k"
    using merged_item[OF assms(1)] set_surviving_keys by blast
  have r: "\<forall>k \<in> set (surviving_keys (rhs_items R)).
             item_key (item_of (negate (merged m (rhs_items R) k))) = Some k"
    using merged_item[OF assms(2)] set_surviving_keys by fastforce
  show ?thesis
    using keys_of_tab[OF l] keys_of_tab[OF r]
    by (simp add: second_pass_def right_side_def items_of_def negated_def keys_of_append
        canonical_terms_def comp_def)
qed

lemma coeffs_of_second_pass:
  assumes "well_formed m L" and "well_formed m (rhs_items R)"
  shows "coeffs_of k (second_pass m L R)
           = (if k \<in> set (surviving_keys L) then [coeff_sum k L] else [])
             @ (if k \<in> set (surviving_keys (rhs_items R))
                then [js_neg (coeff_sum k (rhs_items R))] else [])"
proof -
  have l: "\<forall>k \<in> set (surviving_keys L). item_key (item_of (merged m L k)) = Some k"
    using merged_item[OF assms(1)] set_surviving_keys by blast
  have r: "\<forall>k \<in> set (surviving_keys (rhs_items R)).
             item_key (item_of (negate (merged m (rhs_items R) k))) = Some k"
    using merged_item[OF assms(2)] set_surviving_keys by fastforce
  show ?thesis
    using coeffs_of_tab[OF distinct_surviving_keys l, of k]
      coeffs_of_tab[OF distinct_surviving_keys r, of k]
    by (simp add: second_pass_def right_side_def items_of_def negated_def coeffs_of_append
        canonical_terms_def comp_def)
qed

lemma well_formed_second_pass:
  assumes "well_formed m L" and "well_formed m (rhs_items R)"
  shows "well_formed m (second_pass m L R)"
proof -
  have l: "valid_item (item_of (merged m L k))
           \<and> list_all (registered m) (quadratic_vars (item_of (merged m L k)))"
    if "k \<in> set (surviving_keys L)" for k
    using merged_item[OF assms(1), of k] that set_surviving_keys by blast
  have r: "valid_item (item_of (negate (merged m (rhs_items R) k)))
           \<and> list_all (registered m) (quadratic_vars (item_of (negate (merged m (rhs_items R) k))))"
    if "k \<in> set (surviving_keys (rhs_items R))" for k
    using merged_item[OF assms(2), of k] that set_surviving_keys by fastforce
  have v: "list_all valid_item (second_pass m L R)"
    using l r
    by (auto simp: second_pass_def right_side_def items_of_def negated_def canonical_terms_def
        list_all_iff)
  have q: "list_all (registered m) (concat (map quadratic_vars (second_pass m L R)))"
    using l r
    by (auto simp: second_pass_def right_side_def items_of_def negated_def canonical_terms_def
        list_all_iff)
  have "set (surviving_keys L) \<subseteq> set (keys_of L)"
      "set (surviving_keys (rhs_items R)) \<subseteq> set (keys_of (rhs_items R))"
    by (rule set_surviving_keys)+
  then have o: "list_all own_key (keys_of (second_pass m L R))"
    using assms by (auto simp: keys_of_second_pass well_formed_def list_all_iff)
  show ?thesis
    using v q o by (simp add: well_formed_def)
qed

lemma no_index_keys_second_pass:
  assumes "well_formed m L" and "well_formed m (rhs_items R)"
    and "no_index_keys L" and "no_index_keys (rhs_items R)"
  shows "no_index_keys (second_pass m L R)"
proof -
  have "set (surviving_keys L) \<subseteq> set (keys_of L)"
      "set (surviving_keys (rhs_items R)) \<subseteq> set (keys_of (rhs_items R))"
    by (rule set_surviving_keys)+
  then show ?thesis
    using assms(3,4)
    by (auto simp: keys_of_second_pass[OF assms(1,2)] no_index_keys_def list_all_iff)
qed

lemma rhs_first_pass:
  assumes "well_formed m (rhs_items R)" and "no_index_keys (rhs_items R)"
  shows "(case R of RhsNumber n \<Rightarrow> Inr \<lparr>econst = n, eterms = []\<rparr>
                  | RhsExpression ex \<Rightarrow> parseExpression m ex) = Inr (right_side m R)"
proof (cases R)
  case (RhsNumber n)
  then show ?thesis
    by (simp add: right_side_def canonical_terms_def surviving_keys_def)
next
  case (RhsExpression ex)
  then show ?thesis
    using assms by (simp add: right_side_def parseExpression_plain well_formed_def)
qed

lemma constant_of_second_pass:
  "constant_of (second_pass m L R)
     = js_add (js_add (Fin 0) (constant_of L)) (js_neg (econst (right_side m R)))"
proof -
  have n: "numbers_of (map item_of ts) = []" for ts
  proof (induction ts)
    case Nil
    show ?case by simp
  next
    case (Cons t ts)
    then show ?case by (cases t) simp_all
  qed
  have "numbers_of (second_pass m L R) = [constant_of L, js_neg (econst (right_side m R))]"
    using n[of "canonical_terms m L"] n[of "map negate (eterms (right_side m R))"]
    by (simp add: second_pass_def items_of_def negated_def numbers_of_append comp_def)
  then show ?thesis
    by (simp add: constant_of_def)
qed

subsection \<open>The two orders of a quadratic pair\<close>

lemma step_quad_sym:
  "step m cmb (Array3 (Some c) (Some x) (Some y)) = step m cmb (Array3 (Some c) (Some y) (Some x))"
proof -
  consider "name x < name y" | "name x = name y" | "name y < name x"
    by (rule linorder_cases)
  then show ?thesis
  proof cases
    case 1
    then have "\<not> name y < name x" by simp
    with 1 show ?thesis by (simp add: Let_def)
  next
    case 2
    then show ?thesis by (simp add: Let_def)
  next
    case 3
    then have "\<not> name x < name y" by simp
    with 3 show ?thesis by (simp add: Let_def)
  qed
qed

lemma for_items_swap:
  assumes "\<And>cmb. step m cmb a = step m cmb b"
  shows "for_items m cmb (xs @ a # ys) = for_items m cmb (xs @ b # ys)"
  by (simp add: for_items_append assms split: sum.splits)

lemma parse_quad_sym:
  "parseExpression m (xs @ Array3 (Some c) (Some x) (Some y) # ys)
   = parseExpression m (xs @ Array3 (Some c) (Some y) (Some x) # ys)"
  unfolding parseExpression_def
  by (simp add: for_items_swap[where a = "Array3 (Some c) (Some x) (Some y)", OF step_quad_sym])

lemma reserved_no_star: "k \<in> set clobbered_keys \<or> k \<in> set inherited_keys \<Longrightarrow> CHR ''*'' \<notin> set k"
  by (auto simp: clobbered_keys_def inherited_keys_def)

lemma own_key_termName: "own_key (termName a b)"
proof -
  have "CHR ''*'' \<in> set (termName a b)" by (simp add: termName_def)
  then show ?thesis using reserved_no_star[of "termName a b"] by (auto simp: own_key_def)
qed

lemma not_index_termName: "\<not> is_array_index (termName a b)"
proof -
  have "CHR ''_'' \<in> set (termName a b)" by (simp add: termName_def)
  moreover have "\<not> is_digit (CHR ''_'')" by (simp add: is_digit_def digit_of_def)
  ultimately show ?thesis by (auto simp: is_array_index_def list_all_iff)
qed

lemma parse_quad_single:
  assumes "registered m x" "registered m y" "\<not> is_zero c"
  shows "parseExpression m [Array3 (Some c) (Some x) (Some y)] =
           Inr \<lparr>econst = Fin 0,
                eterms = [Quad c (Some (if name x > name y then y else x))
                                 (Some (if name x > name y then x else y))]\<rparr>"
  using assms own_key_termName not_index_termName
  by (simp add: parseExpression_def add_term_def own_key_def Let_def for_in_def registered_def)

section \<open>Claims\<close>

text \<open>
  C9. The quadratic terms \<open>(c, x, y)\<close> and \<open>(c, y, x)\<close> canonicalize to the same stored
  term: wherever the element stands in an expression, exchanging its two variables does
  not change what parseExpression returns; and for variables registered in the model and a
  non-zero coefficient the stored term holds the two variables in ascending order of
  their names, whichever way round they were given.
\<close>

theorem quadratic_pair_symmetric:
  "parseExpression m (xs @ Array3 (Some c) (Some x) (Some y) # ys)
     = parseExpression m (xs @ Array3 (Some c) (Some y) (Some x) # ys)
   \<and> pair_key x y = pair_key y x
   \<and> (registered m x \<and> registered m y \<and> \<not> is_zero c \<longrightarrow>
        parseExpression m [Array3 (Some c) (Some x) (Some y)]
          = Inr \<lparr>econst = Fin 0,
                 eterms = [Quad c (Some (if name x > name y then y else x))
                                  (Some (if name x > name y then x else y))]\<rparr>
        \<and> parseExpression m [Array3 (Some c) (Some y) (Some x)]
          = Inr \<lparr>econst = Fin 0,
                 eterms = [Quad c (Some (if name x > name y then y else x))
                                  (Some (if name x > name y then x else y))]\<rparr>)"
proof -
  have key: "pair_key x y = pair_key y x"
    by (cases "name x" "name y" rule: linorder_cases) (auto simp: pair_key_def)
  have single: "parseExpression m [Array3 (Some c) (Some y) (Some x)]
      = parseExpression m [Array3 (Some c) (Some x) (Some y)]"
    using parse_quad_sym[of m "[]" c y x "[]"] by simp
  show ?thesis
    using parse_quad_sym[of m xs c x y ys] key single parse_quad_single[of m x y c]
    by simp
qed

theorem quadratic_pair_symmetric_witness:
  "parseExpression model_xy [Array3 (Some (Fin 3)) (Some var_y) (Some var_x)]
     = Inr \<lparr>econst = Fin 0, eterms = [Quad (Fin 3) (Some var_x) (Some var_y)]\<rparr>
   \<and> parseExpression model_xy [Array3 (Some (Fin 3)) (Some var_x) (Some var_y)]
     = Inr \<lparr>econst = Fin 0, eterms = [Quad (Fin 3) (Some var_x) (Some var_y)]\<rparr>"
proof -
  have r: "registered model_xy var_y \<and> registered model_xy var_x \<and> \<not> is_zero (Fin 3)"
    by code_simp
  have n: "\<not> name var_y < name var_x" "name var_x < name var_y"
    by code_simp+
  show ?thesis
    using quadratic_pair_symmetric[of model_xy "[]" "Fin 3" var_x var_y "[]"] r n
    by simp
qed

text \<open>
  C2 (amended). Take a sequence of valid expression elements whose variables are
  registered in the model under names that are ordinary dictionary keys, none of them an
  array index. Then parseExpression returns the constant first, followed by one term per
  key in the order in which the keys were first seen, each carrying the sum of the
  coefficients given under its key, the terms whose sum is zero left out. The sums are
  sums of doubles taken from left to right in the order of the input, that of the
  constant starting from 0. The result depends on the order of the input: the emitted
  terms follow it, and so may the rounded sums. When every number and coefficient is a
  whole number and their absolute values add up to at most \<open>2^53\<close>, a reordered input
  yields the same constant and the same coefficient under every key. And \<open>[[2,x],[3,x]]\<close>
  canonicalizes to what \<open>[[5,x]]\<close> canonicalizes to.
\<close>

theorem parseExpression_canonical:
  assumes "well_formed m xs" and "no_index_keys xs"
  shows "parseExpression m xs = Inr \<lparr>econst = constant_of xs, eterms = canonical_terms m xs\<rparr>
         \<and> keys_of (map item_of (canonical_terms m xs))
             = filter (\<lambda>k. \<not> is_zero (coeff_sum k xs)) (first_seen (keys_of xs))
         \<and> map coeff (canonical_terms m xs)
             = map (\<lambda>k. coeff_sum k xs)
                 (filter (\<lambda>k. \<not> is_zero (coeff_sum k xs)) (first_seen (keys_of xs)))
         \<and> (whole_within (2 ^ 53) xs \<longrightarrow>
               (\<forall>ys. mset ys = mset xs \<longrightarrow>
                  (\<exists>e. parseExpression m ys = Inr e \<and> econst e = constant_of xs
                       \<and> (\<forall>k. coeff_sum k (items_of e) = coeff_sum k xs))))
         \<and> parseExpression m [Array2 (Some (Fin 2)) (Some x), Array2 (Some (Fin 3)) (Some x)]
              = parseExpression m [Array2 (Some (Fin 5)) (Some x)]"
proof -
  have v: "list_all valid_item xs" and o: "list_all own_key (keys_of xs)"
    using assms(1) by (simp_all add: well_formed_def)
  have p: "parseExpression m xs = Inr \<lparr>econst = constant_of xs, eterms = canonical_terms m xs\<rparr>"
    by (rule parseExpression_plain[OF v o assms(2)])
  have k: "keys_of (map item_of (canonical_terms m xs))
             = filter (\<lambda>k. \<not> is_zero (coeff_sum k xs)) (first_seen (keys_of xs))"
    using keys_of_canonical_terms[OF assms(1)] by (simp add: surviving_keys_def)
  have c: "map coeff (canonical_terms m xs)
             = map (\<lambda>k. coeff_sum k xs)
                 (filter (\<lambda>k. \<not> is_zero (coeff_sum k xs)) (first_seen (keys_of xs)))"
    using coeffs_of_canonical_terms[of m xs] by (simp add: surviving_keys_def)
  have q: "\<exists>e. parseExpression m ys = Inr e \<and> econst e = constant_of xs
               \<and> (\<forall>k. coeff_sum k (items_of e) = coeff_sum k xs)"
    if "whole_within (2 ^ 53) xs" and "mset ys = mset xs" for ys
    by (rule reordered_whole[OF assms that])
  show ?thesis
    using p k c q merge_same_variable[of m x] by blast
qed

theorem parseExpression_canonical_witness:
  "parseExpression model_xy
       [Array2 (Some (Fin 2)) (Some var_x), VarItem var_y, Num (Fin 4), Array2 (Some (Fin 3)) (Some var_x)]
     = Inr \<lparr>econst = Fin 4, eterms = [Lin (Fin 5) var_x, Lin (Fin 1) var_y]\<rparr>
   \<and> (\<exists>e. parseExpression model_xy
              [VarItem var_y, Array2 (Some (Fin 3)) (Some var_x), Array2 (Some (Fin 2)) (Some var_x), Num (Fin 4)]
            = Inr e
          \<and> econst e = Fin 4 \<and> coeff_sum ''x'' (items_of e) = Fin 5
          \<and> coeff_sum ''y'' (items_of e) = Fin 1)"
proof -
  let ?xs = "[Array2 (Some (Fin 2)) (Some var_x), VarItem var_y, Num (Fin 4),
              Array2 (Some (Fin 3)) (Some var_x)]"
  let ?ys = "[VarItem var_y, Array2 (Some (Fin 3)) (Some var_x), Array2 (Some (Fin 2)) (Some var_x),
              Num (Fin 4)]"
  have wf: "well_formed model_xy ?xs" by code_simp
  have ni: "no_index_keys ?xs" by code_simp
  have wh: "whole_within (2 ^ 53) ?xs" by code_simp
  have perm: "mset ?ys = mset ?xs" by (simp add: add.commute add.left_commute)
  have vals: "constant_of ?xs = Fin 4"
      "canonical_terms model_xy ?xs = [Lin (Fin 5) var_x, Lin (Fin 1) var_y]"
      "coeff_sum ''x'' ?xs = Fin 5" "coeff_sum ''y'' ?xs = Fin 1"
    by code_simp+
  from parseExpression_canonical[OF wf ni, of var_x]
  have a: "parseExpression model_xy ?xs
             = Inr \<lparr>econst = constant_of ?xs, eterms = canonical_terms model_xy ?xs\<rparr>"
    and b: "\<exists>e. parseExpression model_xy ?ys = Inr e \<and> econst e = constant_of ?xs
               \<and> (\<forall>k. coeff_sum k (items_of e) = coeff_sum k ?xs)"
    using perm wh by blast+
  show ?thesis
    using a b vals by auto
qed

theorem parseExpression_order_counterexample:
  "mset [VarItem var_y, VarItem var_x] = mset [VarItem var_x, VarItem var_y]
   \<and> parseExpression model_xy [VarItem var_x, VarItem var_y]
       = Inr \<lparr>econst = Fin 0, eterms = [Lin (Fin 1) var_x, Lin (Fin 1) var_y]\<rparr>
   \<and> parseExpression model_xy [VarItem var_y, VarItem var_x]
       = Inr \<lparr>econst = Fin 0, eterms = [Lin (Fin 1) var_y, Lin (Fin 1) var_x]\<rparr>
   \<and> parseExpression model_xy [VarItem var_y, VarItem var_x]
       \<noteq> parseExpression model_xy [VarItem var_x, VarItem var_y]
   \<and> mset [Array2 (Some (Fin (2 ^ 53))) (Some var_x), Array2 (Some (Fin (- (2 ^ 53)))) (Some var_x),
            Array2 (Some (Fin 1)) (Some var_x)]
       = mset [Array2 (Some (Fin (2 ^ 53))) (Some var_x), Array2 (Some (Fin 1)) (Some var_x),
               Array2 (Some (Fin (- (2 ^ 53)))) (Some var_x)]
   \<and> parseExpression model_xy
         [Array2 (Some (Fin (2 ^ 53))) (Some var_x), Array2 (Some (Fin 1)) (Some var_x),
          Array2 (Some (Fin (- (2 ^ 53)))) (Some var_x)]
       = Inr \<lparr>econst = Fin 0, eterms = []\<rparr>
   \<and> parseExpression model_xy
         [Array2 (Some (Fin (2 ^ 53))) (Some var_x), Array2 (Some (Fin (- (2 ^ 53)))) (Some var_x),
          Array2 (Some (Fin 1)) (Some var_x)]
       = Inr \<lparr>econst = Fin 0, eterms = [Lin (Fin 1) var_x]\<rparr>"
proof -
  have "mset [VarItem var_y, VarItem var_x] = mset [VarItem var_x, VarItem var_y]"
    by (simp add: add.commute)
  moreover have "parseExpression model_xy [VarItem var_x, VarItem var_y]
       = Inr \<lparr>econst = Fin 0, eterms = [Lin (Fin 1) var_x, Lin (Fin 1) var_y]\<rparr>"
    by code_simp
  moreover have "parseExpression model_xy [VarItem var_y, VarItem var_x]
       = Inr \<lparr>econst = Fin 0, eterms = [Lin (Fin 1) var_y, Lin (Fin 1) var_x]\<rparr>"
    by code_simp
  moreover have "parseExpression model_xy [VarItem var_y, VarItem var_x]
       \<noteq> parseExpression model_xy [VarItem var_x, VarItem var_y]"
    by code_simp
  moreover have "mset [Array2 (Some (Fin (2 ^ 53))) (Some var_x),
                       Array2 (Some (Fin (- (2 ^ 53)))) (Some var_x),
                       Array2 (Some (Fin 1)) (Some var_x)]
       = mset [Array2 (Some (Fin (2 ^ 53))) (Some var_x), Array2 (Some (Fin 1)) (Some var_x),
               Array2 (Some (Fin (- (2 ^ 53)))) (Some var_x)]"
    by (simp add: add.commute)
  moreover have "parseExpression model_xy
         [Array2 (Some (Fin (2 ^ 53))) (Some var_x), Array2 (Some (Fin 1)) (Some var_x),
          Array2 (Some (Fin (- (2 ^ 53)))) (Some var_x)]
       = Inr \<lparr>econst = Fin 0, eterms = []\<rparr>"
    by code_simp
  moreover have "parseExpression model_xy
         [Array2 (Some (Fin (2 ^ 53))) (Some var_x), Array2 (Some (Fin (- (2 ^ 53)))) (Some var_x),
          Array2 (Some (Fin 1)) (Some var_x)]
       = Inr \<lparr>econst = Fin 0, eterms = [Lin (Fin 1) var_x]\<rparr>"
    by code_simp
  ultimately show ?thesis by blast
qed

text \<open>
  C3 (the code differs). The dictionary of parseExpression is an ordinary object, and a
  term is merged into an entry when \<open>combined[name]\<close> is truthy. For a variable named like
  a property that every object inherits, such as \<open>toString\<close>, that is the inherited
  function: the coefficient is added to a slot of the function and the term is gone. So
  \<open>addConstr([x], "<=", [[2, t]])\<close> with \<open>t\<close> named \<open>toString\<close> stores \<open>x <= -0\<close>: the term
  of the right side is neither negated nor merged. With \<open>y\<close> in the place of \<open>t\<close> the call
  stores \<open>x - 2 y <= -0\<close> (the negation of the constant 0 is the negative zero), and the
  two calls of the claim's example store the same constraint, as the claim says.
\<close>

theorem addConstr_loses_inherited_name:
  "addVar model_xy (no_options\<lparr>opt_name := Some ''toString''\<rparr>) = (model_xyt, Inr var_toString)
   \<and> addConstr model_xyt [VarItem var_x] ''<=''
        (RhsExpression [Array2 (Some (Fin 2)) (Some var_toString)])
       = Inr (model_xyt\<lparr>constraints :=
                [\<lparr>lhs = \<lparr>econst = Fin 0, eterms = [Lin (Fin 1) var_x]\<rparr>, comparison = ''<='',
                  rhs = NegZero, primal = None, dual = None\<rparr>]\<rparr>,
              \<lparr>lhs = \<lparr>econst = Fin 0, eterms = [Lin (Fin 1) var_x]\<rparr>, comparison = ''<='',
                rhs = NegZero, primal = None, dual = None\<rparr>)
   \<and> addConstr model_xyt [VarItem var_x] ''<=''
        (RhsExpression [Array2 (Some (Fin 2)) (Some var_y)])
       = Inr (model_xyt\<lparr>constraints :=
                [\<lparr>lhs = \<lparr>econst = Fin 0, eterms = [Lin (Fin 1) var_x, Lin (Fin (- 2)) var_y]\<rparr>,
                  comparison = ''<='', rhs = NegZero, primal = None, dual = None\<rparr>]\<rparr>,
              \<lparr>lhs = \<lparr>econst = Fin 0, eterms = [Lin (Fin 1) var_x, Lin (Fin (- 2)) var_y]\<rparr>,
                comparison = ''<='', rhs = NegZero, primal = None, dual = None\<rparr>)
   \<and> parseExpression model_xyt [Array2 (Some (Fin 2)) (Some var_toString)]
       = Inr \<lparr>econst = Fin 0, eterms = []\<rparr>
   \<and> addConstr model_xyt [Array2 (Some (Fin 3)) (Some var_toString), VarItem var_x] ''>=''
        (RhsNumber (Fin 1))
       = Inr (model_xyt\<lparr>constraints :=
                [\<lparr>lhs = \<lparr>econst = Fin 0, eterms = [Lin (Fin 1) var_x]\<rparr>, comparison = ''>='',
                  rhs = Fin 1, primal = None, dual = None\<rparr>]\<rparr>,
              \<lparr>lhs = \<lparr>econst = Fin 0, eterms = [Lin (Fin 1) var_x]\<rparr>, comparison = ''>='',
                rhs = Fin 1, primal = None, dual = None\<rparr>)
   \<and> addConstr model_xy [VarItem var_x, Array2 (Some (Fin 2)) (Some var_y), Num (Fin 3)] ''<=''
        (RhsNumber (Fin 8))
       = addConstr model_xy [VarItem var_x, Array2 (Some (Fin 2)) (Some var_y)] ''<=''
           (RhsNumber (Fin 5))
   \<and> addConstr model_xy [VarItem var_x, Array2 (Some (Fin 2)) (Some var_y)] ''<=''
        (RhsNumber (Fin 5))
       = Inr (model_xy\<lparr>constraints :=
                [\<lparr>lhs = \<lparr>econst = Fin 0, eterms = [Lin (Fin 1) var_x, Lin (Fin 2) var_y]\<rparr>,
                  comparison = ''<='', rhs = Fin 5, primal = None, dual = None\<rparr>]\<rparr>,
              \<lparr>lhs = \<lparr>econst = Fin 0, eterms = [Lin (Fin 1) var_x, Lin (Fin 2) var_y]\<rparr>,
                comparison = ''<='', rhs = Fin 5, primal = None, dual = None\<rparr>)"
  by code_simp

text \<open>
  C10. When the answer of highs-js has a status other than \<open>Optimal\<close> and \<open>Feasible\<close>, the
  decoder stores the status and returns: the model is otherwise what it was, so no
  variable's value and no constraint's primal or dual is touched. In a solve through a
  highs-js handle they are therefore the nulls that solve wrote at its start.
\<close>

theorem readHighsSolution_not_solved:
  assumes "Status sol \<noteq> ''Optimal''" and "Status sol \<noteq> ''Feasible''"
  shows "readHighsSolution m sol = m\<lparr>status := StatusString (Status sol)\<rparr>
         \<and> variables (readHighsSolution m sol) = variables m
         \<and> constraints (readHighsSolution m sol) = constraints m
         \<and> (\<not> (has_branchAndCut s \<and> has_lastSolvedModel s) \<and> \<not> has_GLP_OPT s \<and> has_Highs_run s
             \<and> Model_toLPFormat (clear_previous m) = Inr req \<and> highs_solve s req opts = Inr sol
             \<longrightarrow> snd (solve m s opts) = None
                 \<and> status (fst (solve m s opts)) = StatusString (Status sol)
                 \<and> list_all (\<lambda>p. val (snd p) = None) (variables (fst (solve m s opts)))
                 \<and> list_all (\<lambda>c. primal c = None \<and> dual c = None)
                      (constraints (fst (solve m s opts))))"
proof -
  have r: "readHighsSolution m' sol = m'\<lparr>status := StatusString (Status sol)\<rparr>" for m'
    using assms by (simp add: readHighsSolution_def Let_def)
  have c: "list_all (\<lambda>p. val (snd p) = None) (variables (clear_previous m))
           \<and> list_all (\<lambda>c. primal c = None \<and> dual c = None) (constraints (clear_previous m))"
    by (simp add: clear_previous_def list_all_iff)
  show ?thesis
    using c by (auto simp: r solve_def Let_def)
qed

theorem readHighsSolution_not_solved_witness:
  "readHighsSolution model_solved infeasible_answer
     = model_solved\<lparr>status := StatusString ''Infeasible''\<rparr>
   \<and> val (snd (hd (variables (readHighsSolution model_solved infeasible_answer)))) = Some (Fin 3)
   \<and> status (fst (solve model_solved
                    (no_engine\<lparr>has_Highs_run := True, highs_solve := (\<lambda>req opts. Inr infeasible_answer)\<rparr>) []))
       = StatusString ''Infeasible''
   \<and> list_all (\<lambda>p. val (snd p) = None)
        (variables (fst (solve model_solved
                    (no_engine\<lparr>has_Highs_run := True, highs_solve := (\<lambda>req opts. Inr infeasible_answer)\<rparr>) [])))"
proof -
  let ?s = "no_engine\<lparr>has_Highs_run := True, highs_solve := (\<lambda>req opts. Inr infeasible_answer)\<rparr>"
  have st: "Status infeasible_answer \<noteq> ''Optimal''" "Status infeasible_answer \<noteq> ''Feasible''"
    by code_simp+
  have st': "Status infeasible_answer = ''Infeasible''" by code_simp
  have v: "val (snd (hd (variables model_solved))) = Some (Fin 3)" by code_simp
  have route: "\<not> (has_branchAndCut ?s \<and> has_lastSolvedModel ?s)" "\<not> has_GLP_OPT ?s" "has_Highs_run ?s"
      "highs_solve ?s req opts = Inr infeasible_answer" for req opts
    by (simp_all add: no_engine_def)
  obtain req where req: "Model_toLPFormat (clear_previous model_solved) = Inr req"
  proof -
    have "\<not> isl (Model_toLPFormat (clear_previous model_solved))" by code_simp
    then show ?thesis using that by (cases "Model_toLPFormat (clear_previous model_solved)") auto
  qed
  show ?thesis
    using readHighsSolution_not_solved[OF st, of model_solved ?s req "[]"] route req st' v
    by simp
qed

text \<open>
  C4 (the code differs). solve clears the raw answer, every variable's value, every
  constraint's primal and dual and the objective value, but not the status: a status left
  by an earlier solve is still there after a solve whose handle is not recognised, and
  after one whose encoding raises.
\<close>

theorem solve_keeps_stale_status:
  "status model_solved = StatusString ''Optimal''
   \<and> solve model_solved no_engine [] = (clear_previous model_solved, None)
   \<and> status (fst (solve model_solved no_engine [])) = StatusString ''Optimal''
   \<and> list_all (\<lambda>p. val (snd p) = None) (variables (fst (solve model_solved no_engine [])))
   \<and> ObjVal (fst (solve model_solved no_engine [])) = None
   \<and> solve (model_quadratic\<lparr>status := StatusString ''Optimal''\<rparr>) glpk_engine []
       = (model_quadratic\<lparr>status := StatusString ''Optimal''\<rparr>, Some QuadraticUnsupported)"
  by code_simp

text \<open>
  C5 (the code differs). Only the decoder of the jsLPSolver bridge sets the objective
  value, adding the constant of the model's objective to the engine's figure. The decoders
  of the glpk.js and highs-js bridges never write it, so after a solve through either it
  is the null that solve wrote at its start: for objective \<open>x + 2\<close>, constraint \<open>x <= 3\<close>,
  maximize, the value is 5 under jsLPSolver and null under the other two.
\<close>

theorem objective_value_per_bridge:
  "ObjVal (readGLPKSolution m gsol) = ObjVal m
   \<and> ObjVal (readHighsSolution m hsol) = ObjVal m
   \<and> ObjVal (fst (solve model_obj glpk_engine [])) = None
   \<and> ObjVal (fst (solve model_obj highs_engine [])) = None
   \<and> ObjVal (fst (solve model_obj jslp_engine [])) = Some (Fin 5)"
proof -
  have g: "ObjVal (readGLPKSolution m gsol) = ObjVal m"
    by (simp add: readGLPKSolution_def Let_def split: option.splits)
  have h: "ObjVal (readHighsSolution m hsol) = ObjVal m"
    by (simp add: readHighsSolution_def Let_def)
  have e: "ObjVal (fst (solve model_obj glpk_engine [])) = None"
      "ObjVal (fst (solve model_obj highs_engine [])) = None"
      "ObjVal (fst (solve model_obj jslp_engine [])) = Some (Fin 5)"
    by code_simp+
  show ?thesis using g h e by simp
qed

text \<open>
  C6 (the code differs). The decoder of the glpk.js bridge stores the engine's numeric
  result status as it is: after decoding an answer with status 5 (GLP_OPT) the model's
  status is the number 5, not the string \<open>Optimal\<close>.
\<close>

theorem readGLPKSolution_status_is_number:
  "status (readGLPKSolution m sol) = StatusNumber (gstatus sol)
   \<and> status (readGLPKSolution model_obj glpk_answer) = StatusNumber (Fin 5)
   \<and> status (readGLPKSolution model_obj glpk_answer) \<noteq> StatusString ''Optimal''
   \<and> status (fst (solve model_obj glpk_engine [])) = StatusNumber (Fin 5)"
proof -
  have "status (readGLPKSolution m sol) = StatusNumber (gstatus sol)"
    by (simp add: readGLPKSolution_def Let_def split: option.splits)
  moreover have "status (readGLPKSolution model_obj glpk_answer) = StatusNumber (Fin 5)"
      "status (fst (solve model_obj glpk_engine [])) = StatusNumber (Fin 5)"
    by code_simp+
  ultimately show ?thesis by simp
qed

text \<open>
  C7 (the code differs). Model.toGLPKFormat refuses a quadratic model with an error;
  Model.toJSLPSolverFormat has no such check and encodes it, entering the coefficient of
  a quadratic term under the term's first variable as if the term were linear.
\<close>

theorem jslp_encodes_quadratic_model:
  "setObjective model_x [Array3 (Some (Fin 1)) (Some var_x) (Some var_x)] ''MINIMIZE''
     = Inr model_quadratic
   \<and> isQuadratic model_quadratic
   \<and> Model_toGLPKFormat model_quadratic = Inl QuadraticUnsupported
   \<and> Model_toJSLPSolverFormat model_quadratic []
       = Inr \<lparr>optimize = ''objective'', opType = ''min'', jconstraints = [],
              jvariables = [(''x'', [(''objective'', Fin 1)])], ints = [], jbinaries = [],
              unrestricted = [], joptions = []\<rparr>"
  by code_simp

text \<open>
  C8 (the code differs). In the rule ConstraintSense the alternative \<open>=\<close> stands before
  \<open>=<\<close> and \<open>=>\<close>, so of these two tokens only the \<open>=\<close> is taken and the constraint
  fails at the character left over; there is no alternative for \<open>>\<close>, so a line with \<open>>\<close>
  fails; the action belongs to the last alternative alone, where it turns \<open><\<close> into \<open><=\<close>.
  The tokens \<open><=\<close>, \<open>>=\<close> and \<open>=\<close> pass through unchanged.
\<close>

theorem ConstraintSense_tokens:
  "ConstraintSense (''<='' @ rest) = Some (''<='', rest)
   \<and> ConstraintSense (''>='' @ rest) = Some (''>='', rest)
   \<and> ConstraintSense (''='' @ rest) = Some (''='', rest)
   \<and> ConstraintSense (''< '' @ rest) = Some (''<='', '' '' @ rest)
   \<and> ConstraintSense (''> '' @ rest) = None
   \<and> ConstraintSense (''=<'' @ rest) = Some (''='', ''<'' @ rest)
   \<and> ConstraintSense (''=>'' @ rest) = Some (''='', ''>'' @ rest)
   \<and> Constraint ''c1: 1 x < 3'' =
         Some (\<lparr>constraint_label = Some ''c1'',
                 constraint_expression = [\<lparr>coefficient = Fin 1, variable = Some ''x''\<rparr>],
                 constraint_sense = ''<='', constraint_value = Fin 3\<rparr>, [])
   \<and> Constraint ''c1: 1 x > 3'' = None
   \<and> Constraint ''c1: 1 x =< 3'' = None
   \<and> Constraint ''c1: 1 x => 3'' = None
   \<and> parse ''Maximize\<newline>obj: 1 x\<newline>Subject To\<newline> c1: 1 x > 3\<newline>End\<newline>'' = Inl SyntaxError
   \<and> parse ''Maximize\<newline>obj: 1 x\<newline>Subject To\<newline> c1: 1 x =< 3\<newline>End\<newline>'' = Inl SyntaxError"
proof -
  have general: "ConstraintSense (''<='' @ rest) = Some (''<='', rest)"
      "ConstraintSense (''>='' @ rest) = Some (''>='', rest)"
      "ConstraintSense (''='' @ rest) = Some (''='', rest)"
      "ConstraintSense (''< '' @ rest) = Some (''<='', '' '' @ rest)"
      "ConstraintSense (''> '' @ rest) = None"
      "ConstraintSense (''=<'' @ rest) = Some (''='', ''<'' @ rest)"
      "ConstraintSense (''=>'' @ rest) = Some (''='', ''>'' @ rest)"
    by (simp_all add: ConstraintSense_def lit_def then_p_def return_p_def)
  have lines: "Constraint ''c1: 1 x < 3'' =
         Some (\<lparr>constraint_label = Some ''c1'',
                 constraint_expression = [\<lparr>coefficient = Fin 1, variable = Some ''x''\<rparr>],
                 constraint_sense = ''<='', constraint_value = Fin 3\<rparr>, [])"
      "Constraint ''c1: 1 x > 3'' = None"
      "Constraint ''c1: 1 x =< 3'' = None"
      "Constraint ''c1: 1 x => 3'' = None"
    by code_simp+
  have files:
      "parse ''Maximize\<newline>obj: 1 x\<newline>Subject To\<newline> c1: 1 x > 3\<newline>End\<newline>'' = Inl SyntaxError"
      "parse ''Maximize\<newline>obj: 1 x\<newline>Subject To\<newline> c1: 1 x =< 3\<newline>End\<newline>'' = Inl SyntaxError"
    by code_simp+
  show ?thesis
    using general lines files by simp
qed

text \<open>
  C1 (the code differs). The writer always emits the line \<open>Bounds\<close>, also when no
  variable has a bound to list, and the grammar's rule Bounds wants at least one Bound
  after that word: the text written for a model whose variables all have the default
  bounds is rejected by the parser, so reading it back raises instead of rebuilding the
  model. (With a bound to list, the text of this model is read back to the same model.)
\<close>

theorem written_text_is_rejected:
  "addVar new_Model (no_options\<lparr>opt_name := Some ''x''\<rparr>) = (model_x, Inr var_x)
   \<and> map_sum id (\<lambda>m. addConstr m [VarItem var_x] ''<='' (RhsNumber (Fin 3)))
        (setObjective model_x [Array2 (Some (Fin 1)) (Some var_x)] ''MAXIMIZE'')
      = Inr (Inr (model_lp, hd (constraints model_lp)))
   \<and> \<not> isQuadratic model_lp
   \<and> toLPFormat model_lp = Inr text_lp
   \<and> Model_toLPFormat model_lp = Inr text_lp
   \<and> parse text_lp = Inl SyntaxError
   \<and> fromLPFormat model_lp text_lp = (model_lp, Some SyntaxError)
   \<and> fromLPFormat new_Model text_lp = (new_Model, Some SyntaxError)
   \<and> toLPFormat model_bounded = Inr text_bounded
   \<and> fromLPFormat new_Model text_bounded = (model_bounded, None)"
  by code_simp

section \<open>Further properties of the code\<close>

text \<open>
  addConstr on sides whose variables have ordinary names, none of them an array index: the
  call returns and appends exactly one constraint. Its left-hand expression has constant
  0 and is the canonical form of the canonical left side followed by the negated
  canonical right side, so it has one term per key: a key of both sides carries the left
  coefficient plus the negated right one, a key of one side carries that side's
  coefficient (negated if from the right), and a key whose coefficient comes to zero has
  no term. Its right-hand value is the negation of the merged constant, and \<open>==\<close> is
  stored as \<open>=\<close>.
\<close>

theorem addConstr_ordinary_names:
  assumes "well_formed m L" and "no_index_keys L"
    and "well_formed m (rhs_items R)" and "no_index_keys (rhs_items R)"
    and "valid_operator cmp"
  shows "addConstr m L cmp R
           = Inr (m\<lparr>constraints := constraints m @ [normalized m L cmp R]\<rparr>, normalized m L cmp R)
         \<and> econst (lhs (normalized m L cmp R)) = Fin 0
         \<and> rhs (normalized m L cmp R)
             = js_neg (js_add (js_add (Fin 0) (constant_of L)) (js_neg (econst (right_side m R))))
         \<and> keys_of (map item_of (eterms (lhs (normalized m L cmp R))))
             = filter (\<lambda>k. \<not> is_zero (coeff_sum k (second_pass m L R)))
                 (first_seen (surviving_keys L @ surviving_keys (rhs_items R)))
         \<and> map coeff (eterms (lhs (normalized m L cmp R)))
             = map (\<lambda>k. coeff_sum k (second_pass m L R))
                 (filter (\<lambda>k. \<not> is_zero (coeff_sum k (second_pass m L R)))
                    (first_seen (surviving_keys L @ surviving_keys (rhs_items R))))
         \<and> (\<forall>k. coeff_sum k (second_pass m L R)
                  = (if k \<in> set (surviving_keys L)
                     then (if k \<in> set (surviving_keys (rhs_items R))
                           then js_add (coeff_sum k L) (js_neg (coeff_sum k (rhs_items R)))
                           else coeff_sum k L)
                     else (if k \<in> set (surviving_keys (rhs_items R))
                           then js_neg (coeff_sum k (rhs_items R))
                           else Fin 0)))"
proof -
  let ?l = "\<lparr>econst = constant_of L, eterms = canonical_terms m L\<rparr>"
  have l: "parseExpression m L = Inr ?l"
    using assms(1,2) by (simp add: parseExpression_plain well_formed_def)
  have r: "(case R of RhsNumber n \<Rightarrow> Inr \<lparr>econst = n, eterms = []\<rparr>
                    | RhsExpression ex \<Rightarrow> parseExpression m ex) = Inr (right_side m R)"
    by (rule rhs_first_pass[OF assms(3,4)])
  have wf: "well_formed m (second_pass m L R)"
    by (rule well_formed_second_pass[OF assms(1,3)])
  have ni: "no_index_keys (second_pass m L R)"
    by (rule no_index_keys_second_pass[OF assms(1,3,2,4)])
  have f: "parseExpression m (items_of ?l @ negated (right_side m R))
             = Inr \<lparr>econst = constant_of (second_pass m L R),
                    eterms = canonical_terms m (second_pass m L R)\<rparr>"
    using wf ni by (simp add: parseExpression_plain well_formed_def flip: second_pass_def)
  have ok: "(if cmp = ''=='' then ''='' else cmp) \<in> set [''<='', ''='', ''>='']"
    using assms(5) by (auto simp: valid_operator_def)
  have a: "addConstr m L cmp R
           = Inr (m\<lparr>constraints := constraints m @ [normalized m L cmp R]\<rparr>, normalized m L cmp R)"
    unfolding addConstr_def using l r f ok by (simp add: Let_def normalized_def)
  have c: "rhs (normalized m L cmp R)
             = js_neg (js_add (js_add (Fin 0) (constant_of L)) (js_neg (econst (right_side m R))))"
    by (simp add: normalized_def constant_of_second_pass)
  have k: "keys_of (map item_of (eterms (lhs (normalized m L cmp R))))
             = filter (\<lambda>k. \<not> is_zero (coeff_sum k (second_pass m L R)))
                 (first_seen (surviving_keys L @ surviving_keys (rhs_items R)))"
    using keys_of_canonical_terms[OF wf]
    by (simp add: normalized_def surviving_keys_def[of "second_pass m L R"]
        keys_of_second_pass[OF assms(1,3)])
  have v: "map coeff (eterms (lhs (normalized m L cmp R)))
             = map (\<lambda>k. coeff_sum k (second_pass m L R))
                 (filter (\<lambda>k. \<not> is_zero (coeff_sum k (second_pass m L R)))
                    (first_seen (surviving_keys L @ surviving_keys (rhs_items R))))"
    using coeffs_of_canonical_terms[of m "second_pass m L R"]
    by (simp add: normalized_def surviving_keys_def[of "second_pass m L R"]
        keys_of_second_pass[OF assms(1,3)])
  have s: "coeff_sum k (second_pass m L R)
                  = (if k \<in> set (surviving_keys L)
                     then (if k \<in> set (surviving_keys (rhs_items R))
                           then js_add (coeff_sum k L) (js_neg (coeff_sum k (rhs_items R)))
                           else coeff_sum k L)
                     else (if k \<in> set (surviving_keys (rhs_items R))
                           then js_neg (coeff_sum k (rhs_items R))
                           else Fin 0))" for k
    by (simp add: coeff_sum_def[of k "second_pass m L R"] coeffs_of_second_pass[OF assms(1,3)])
  show ?thesis
    using a c k v s by (simp add: normalized_def)
qed

theorem addConstr_ordinary_names_witness:
  "addConstr model_xy [Array2 (Some (Fin 3)) (Some var_x), Array2 (Some (Fin 4)) (Some var_y)] ''>=''
      (RhsExpression [Num (Fin 12), Array2 (Some (Fin (- 1))) (Some var_x)])
     = Inr (model_xy\<lparr>constraints :=
              [\<lparr>lhs = \<lparr>econst = Fin 0, eterms = [Lin (Fin 4) var_x, Lin (Fin 4) var_y]\<rparr>,
                comparison = ''>='', rhs = Fin 12, primal = None, dual = None\<rparr>]\<rparr>,
            \<lparr>lhs = \<lparr>econst = Fin 0, eterms = [Lin (Fin 4) var_x, Lin (Fin 4) var_y]\<rparr>,
              comparison = ''>='', rhs = Fin 12, primal = None, dual = None\<rparr>)"
proof -
  let ?L = "[Array2 (Some (Fin 3)) (Some var_x), Array2 (Some (Fin 4)) (Some var_y)]"
  let ?R = "RhsExpression [Num (Fin 12), Array2 (Some (Fin (- 1))) (Some var_x)]"
  have h: "well_formed model_xy ?L" "no_index_keys ?L" "well_formed model_xy (rhs_items ?R)"
      "no_index_keys (rhs_items ?R)" "valid_operator ''>=''"
    by code_simp+
  have n: "normalized model_xy ?L ''>='' ?R
             = \<lparr>lhs = \<lparr>econst = Fin 0, eterms = [Lin (Fin 4) var_x, Lin (Fin 4) var_y]\<rparr>,
                comparison = ''>='', rhs = Fin 12, primal = None, dual = None\<rparr>"
    by code_simp
  have c: "constraints model_xy = []" by code_simp
  show ?thesis
    using addConstr_ordinary_names[OF h] n c by simp
qed

text \<open>
  The sums are those of doubles: \<open>0.1 x + 0.2 x - 0.3 x\<close> keeps the term \<open>x\<close> with the
  coefficient \<open>2^-54\<close>. A number is written as the shortest decimal that reads back as it.
\<close>

theorem sums_are_rounded:
  "map_option (\<lambda>r. parseExpression model_xy (map (term_item model_xy) (fst r)))
       (Expression ''0.1 x + 0.2 x - 0.3 x'')
     = Some (Inr \<lparr>econst = Fin 0, eterms = [Lin (Fin (1 / 2 ^ 54)) var_x]\<rparr>)
   \<and> js_number (round_double (1 / 10)) = ''0.1''
   \<and> js_number (Fin (- 5 / 2)) = ''-2.5''
   \<and> js_number (Fin (10 ^ 21)) = ''1e+21''
   \<and> js_number (js_neg (Fin 0)) = ''0''"
  by code_simp

text \<open>
  The terms are enumerated with \<open>for ... in\<close> over an ordinary object, which visits
  the keys that are array indices first, in ascending numeric order: variables named
  \<open>9\<close> and \<open>10\<close> are emitted before \<open>x\<close> and in that order, however the input was ordered.
  A variable named like a property inherited from Object.prototype gets no entry at all,
  so its term is lost.
\<close>

theorem index_names_come_first:
  "parseExpression model_xy [VarItem var_x, VarItem var_10, VarItem var_9]
     = Inr \<lparr>econst = Fin 0, eterms = [Lin (Fin 1) var_9, Lin (Fin 1) var_10, Lin (Fin 1) var_x]\<rparr>
   \<and> parseExpression model_xy [Array2 (Some (Fin 2)) (Some var_toString), VarItem var_x]
     = Inr \<lparr>econst = Fin 0, eterms = [Lin (Fin 1) var_x]\<rparr>"
  by code_simp

text \<open>
  Model.toGLPKFormat raises for every quadratic model and returns a request for every
  model that is not quadratic.
\<close>

lemma glpk_vars_linear:
  "\<not> list_ex is_length3 ts \<Longrightarrow> \<exists>vs. sequence (map glpk_var ts) = Inr vs"
proof (induction ts)
  case Nil
  show ?case by simp
next
  case (Cons t ts)
  then obtain vs where "sequence (map glpk_var ts) = Inr vs" by auto
  moreover obtain c v where "t = Lin c v"
    using Cons.prems by (cases t) auto
  ultimately show ?case by simp
qed

lemma glpk_rows_linear:
  "\<not> list_ex (\<lambda>c. isQuadraticExpression (lhs c)) (map snd ps)
   \<Longrightarrow> \<exists>rows. sequence (map (\<lambda>(i, c). glpk_row_of i c) ps) = Inr rows"
proof (induction ps)
  case Nil
  show ?case by simp
next
  case (Cons p ps)
  then obtain rows where r: "sequence (map (\<lambda>(i, c). glpk_row_of i c) ps) = Inr rows" by auto
  obtain i c where p: "p = (i, c)" by (cases p)
  have "\<not> list_ex is_length3 (eterms (lhs c))"
    using Cons.prems p by (simp add: isQuadraticExpression_def)
  then obtain vs where "sequence (map glpk_var (eterms (lhs c))) = Inr vs"
    using glpk_vars_linear by blast
  then obtain row where "glpk_row_of i c = Inr row"
    by (simp add: glpk_row_of_def)
  then show ?case using r p by simp
qed

theorem toGLPKFormat_quadratic_guard:
  "(isQuadratic m \<longrightarrow> Model_toGLPKFormat m = Inl QuadraticUnsupported)
   \<and> (\<not> isQuadratic m \<longrightarrow> (\<exists>req. Model_toGLPKFormat m = Inr req))"
proof -
  have "\<exists>req. toGLPKFormat m = Inr req" if lin: "\<not> isQuadratic m"
  proof -
    have "\<not> list_ex is_length3 (eterms (expression (objective m)))"
      using lin by (simp add: isQuadratic_def isQuadraticExpression_def)
    then obtain ovs where o: "sequence (map glpk_var (eterms (expression (objective m)))) = Inr ovs"
      using glpk_vars_linear by blast
    have "\<not> list_ex (\<lambda>c. isQuadraticExpression (lhs c))
              (map snd (zip [0 ..< length (constraints m)] (constraints m)))"
      using lin by (simp add: isQuadratic_def)
    then obtain rows where
      "sequence (map (\<lambda>(i, c). glpk_row_of i c)
                   (zip [0 ..< length (constraints m)] (constraints m))) = Inr rows"
      using glpk_rows_linear by blast
    then show ?thesis using o by (simp add: toGLPKFormat_def)
  qed
  then show ?thesis by (simp add: Model_toGLPKFormat_def)
qed

theorem toGLPKFormat_quadratic_guard_witness:
  "isQuadratic model_quadratic \<and> Model_toGLPKFormat model_quadratic = Inl QuadraticUnsupported
   \<and> \<not> isQuadratic model_obj \<and> (\<exists>req. Model_toGLPKFormat model_obj = Inr req)"
proof -
  have q: "isQuadratic model_quadratic" and l: "\<not> isQuadratic model_obj"
    by code_simp+
  show ?thesis
    using toGLPKFormat_quadratic_guard[of model_quadratic]
          toGLPKFormat_quadratic_guard[of model_obj] q l
    by simp
qed

text \<open>
  What solve does clear: the raw answer, the objective value, every variable's value
  and every constraint's primal and dual are null after the reset, which leaves the rest
  of the model, the status included, as it was; and a solve that raises leaves the model
  exactly as the reset made it.
\<close>

theorem solve_clears_previous_solution:
  "solution (clear_previous m) = None \<and> ObjVal (clear_previous m) = None
   \<and> list_all (\<lambda>p. val (snd p) = None) (variables (clear_previous m))
   \<and> list_all (\<lambda>c. primal c = None \<and> dual c = None) (constraints (clear_previous m))
   \<and> status (clear_previous m) = status m
   \<and> objective (clear_previous m) = objective m
   \<and> map fst (variables (clear_previous m)) = map fst (variables m)
   \<and> (snd (solve m s opts) \<noteq> None \<longrightarrow> fst (solve m s opts) = clear_previous m)"
proof -
  have "fst (solve m s opts) = clear_previous m" if "snd (solve m s opts) \<noteq> None"
    using that by (auto simp: solve_def Let_def split: if_splits sum.splits)
  then show ?thesis
    by (simp add: clear_previous_def list_all_iff comp_def)
qed

theorem solve_clears_previous_solution_witness:
  "snd (solve (model_quadratic\<lparr>ObjVal := Some (Fin 7)\<rparr>) glpk_engine []) = Some QuadraticUnsupported
   \<and> ObjVal (fst (solve (model_quadratic\<lparr>ObjVal := Some (Fin 7)\<rparr>) glpk_engine [])) = None"
proof -
  let ?m = "model_quadratic\<lparr>ObjVal := Some (Fin 7)\<rparr>"
  have e: "snd (solve ?m glpk_engine []) = Some QuadraticUnsupported" by code_simp
  then have "snd (solve ?m glpk_engine []) \<noteq> None" by simp
  then have "fst (solve ?m glpk_engine []) = clear_previous ?m"
    using solve_clears_previous_solution[of ?m glpk_engine "[]"] by blast
  moreover have "ObjVal (clear_previous ?m) = None"
    using solve_clears_previous_solution[of ?m glpk_engine "[]"] by blast
  ultimately show ?thesis using e by simp
qed

text \<open>
  The encoder of the glpk.js bridge gives an equality constraint the bound type GLP_DB
  with both bounds 0, whatever its right-hand value is.
\<close>

theorem glpk_equality_row:
  "glpk_row_of 0 equality_row
     = Inr \<lparr>row_name = ''cons1'', row_vars = [\<lparr>coef_name = ''x'', coef = Fin 1\<rparr>],
            row_bnds = \<lparr>bnds_type = 4, bnds_ub = Fin 0, bnds_lb = Fin 0\<rparr>\<rparr>
   \<and> GLP_DB = 4 \<and> rhs equality_row = Fin 5"
  by code_simp

text \<open>
  A constant in the objective does not survive reading: the grammar yields it as a
  term without a variable, fromLPFormat creates a variable of a generated name for the
  null and hands parseExpression a pair whose variable is undefined, which raises. (A
  constant followed by \<open>+\<close> is not even parsed: the \<open>+\<close> is read as a variable name.)
\<close>

theorem objective_constant_is_not_read:
  "Expression ''2 + 1 x'' = Some ([\<lparr>coefficient = Fin 2, variable = Some ''+''\<rparr>], '' 1 x'')
   \<and> toLPFormat model_obj
       = Inr ''Maximize\<newline>obj: 2 + 1 x\<newline>Subject To\<newline> c1: 1 x <= 3\<newline>Bounds\<newline>End\<newline>''
   \<and> parse ''Maximize\<newline>obj: 2 + 1 x\<newline>Subject To\<newline> c1: 1 x <= 3\<newline>End\<newline>'' = Inl SyntaxError
   \<and> snd (fromLPFormat new_Model
             ''Maximize\<newline>obj: 2 - 1 x\<newline>Subject To\<newline> c1: 1 x <= 3\<newline>End\<newline>'')
       = Some InvalidTerm
   \<and> map fst (variables (fst (fromLPFormat new_Model
             ''Maximize\<newline>obj: 2 - 1 x\<newline>Subject To\<newline> c1: 1 x <= 3\<newline>End\<newline>'')))
       = [''Var0'', ''x'']"
  by code_simp

end
